theory Spec2Isabelle
  imports Complex_Main
begin

section \<open>The fraud engine of \<^verbatim>\<open>s.py\<close>: data model\<close>

text \<open>
  The engine is one Python module: seven risk factors and a behavioural factor that are
  summed into a score, a classifier \<^verbatim>\<open>decide\<close>, a tiered verification dialogue
  \<^verbatim>\<open>run_verification\<close>, and the session loop \<^verbatim>\<open>main\<close> with its two counters.

  Modelling conventions.
  \<^item> A Python \<^verbatim>\<open>float\<close> is an IEEE 754 binary64 number, modelled by the real number it
    denotes: the literal \<^verbatim>\<open>0.10\<close> is the binary64 number nearest to \<open>1/10\<close>, and every
    sum, product and quotient of floats is rounded to the nearest binary64 number.
  \<^item> A naive \<^verbatim>\<open>datetime\<close> is the number of microseconds on the local wall clock;
    \<^verbatim>\<open>now.hour\<close> and the subtraction of two readings are computed from it.
  \<^item> Text is \<^typ>\<open>string\<close>; \<^verbatim>\<open>lower\<close> and \<^verbatim>\<open>strip\<close> are modelled on ASCII.
  \<^item> \<^verbatim>\<open>input\<close> takes the next line of a finite standard input and raises
    \<^verbatim>\<open>EOFError\<close> when there is none; \<^verbatim>\<open>print\<close> appends an event to the output.
  \<^item> What the module takes from outside (the \<^verbatim>\<open>pycountry\<close> tables, \<^verbatim>\<open>float\<close> on
    text, the clock, the iteration order of a \<^verbatim>\<open>set\<close>) is a field of the environment.
\<close>

datatype py_error = EOFError | ValueError

type_synonym datetime = int

definition hour :: "datetime \<Rightarrow> int" where
  "hour t = (t div 3600000000) mod 24"

definition timedelta_seconds :: "int \<Rightarrow> int" where
  "timedelta_seconds n = n * 1000000"

subsection \<open>Floating point\<close>

text \<open>
  A finite binary64 number is \<open>m * 2 ^ k\<close> with an integer \<open>m\<close>, \<open>\<bar>m\<bar> < 2 ^ 53\<close> and
  \<open>- 1074 \<le> k \<le> 971\<close>. The real \<open>2 ^ 1024\<close> stands for \<^verbatim>\<open>inf\<close> and \<open>- 2 ^ 1024\<close> for
  \<^verbatim>\<open>-inf\<close>, so that the comparisons of floats are those of the reals. No operation of
  the module yields \<^verbatim>\<open>nan\<close> (its sums, products and quotients are of non-negative
  numbers); \<^verbatim>\<open>nan\<close> can only be typed in as an amount.
\<close>

definition pow2 :: "int \<Rightarrow> real" where
  "pow2 k = (if 0 \<le> k then 2 ^ nat k else 1 / 2 ^ nat (- k))"

text \<open>The integer nearest to \<open>y\<close>, the even one of the two when \<open>y\<close> lies halfway.\<close>

definition round_half_even :: "real \<Rightarrow> int" where
  "round_half_even y =
     (if y - of_int \<lfloor>y\<rfloor> < 1 / 2 then \<lfloor>y\<rfloor>
      else if y - of_int \<lfloor>y\<rfloor> > 1 / 2 then \<lfloor>y\<rfloor> + 1
      else if even \<lfloor>y\<rfloor> then \<lfloor>y\<rfloor> else \<lfloor>y\<rfloor> + 1)"

text \<open>
  The binary exponent of \<open>a > 0\<close>: the \<open>k\<close> with \<open>2 ^ k \<le> a < 2 ^ (k + 1)\<close>, searched upwards
  from 0 or downwards from \<open>- 1\<close>, and kept between \<open>- 1022\<close> (the subnormal numbers) and
  1024.
\<close>

fun exponent_up :: "nat \<Rightarrow> int \<Rightarrow> real \<Rightarrow> int" where
  "exponent_up 0 k a = k"
| "exponent_up (Suc n) k a = (if a < pow2 (k + 1) then k else exponent_up n (k + 1) a)"

fun exponent_down :: "nat \<Rightarrow> int \<Rightarrow> real \<Rightarrow> int" where
  "exponent_down 0 k a = k"
| "exponent_down (Suc n) k a = (if pow2 k \<le> a then k else exponent_down n (k - 1) a)"

definition exponent :: "real \<Rightarrow> int" where
  "exponent a = (if 1 \<le> a then exponent_up 1024 0 a else exponent_down 1021 (- 1) a)"

definition float_inf :: real where
  "float_inf = pow2 1024"

text \<open>
  Rounding to 53 significant bits: to the nearest multiple of \<open>2 ^ (k - 52)\<close>, where \<open>k\<close>
  is the exponent. A result of magnitude \<open>2 ^ 1024\<close> or more overflows to an infinity.
\<close>

definition round_at :: "int \<Rightarrow> real \<Rightarrow> real" where
  "round_at k x = of_int (round_half_even (x / pow2 (k - 52))) * pow2 (k - 52)"

definition overflow :: "real \<Rightarrow> real" where
  "overflow r = (if float_inf \<le> \<bar>r\<bar> then sgn r * float_inf else r)"

text \<open>
  \<open>double x\<close> is the float nearest to the real \<open>x\<close>: the value of a literal, and the result
  of an operation whose exact result is \<open>x\<close>.
\<close>

definition double :: "real \<Rightarrow> real" where
  "double x = (if x = 0 then 0 else overflow (round_at (exponent \<bar>x\<bar>) x))"

text \<open>
  The operations \<^verbatim>\<open>+\<close>, \<^verbatim>\<open>*\<close> and \<^verbatim>\<open>/\<close> on numbers that are finite or \<^verbatim>\<open>inf\<close>, the
  divisor being finite and positive, and \<^verbatim>\<open>-\<close> on finite numbers. Where one operand
  is an \<^verbatim>\<open>int\<close> (a length, an hour, the literal 3) it is converted exactly.
\<close>

definition float_add :: "real \<Rightarrow> real \<Rightarrow> real" where
  "float_add x y = (if x = float_inf \<or> y = float_inf then float_inf else double (x + y))"

definition float_sub :: "real \<Rightarrow> real \<Rightarrow> real" where
  "float_sub x y = double (x - y)"

definition float_mul :: "real \<Rightarrow> real \<Rightarrow> real" where
  "float_mul x y = (if x = float_inf \<or> y = float_inf then float_inf else double (x * y))"

definition float_div :: "real \<Rightarrow> real \<Rightarrow> real" where
  "float_div x y = (if x = float_inf then float_inf else double (x / y))"

text \<open>
  \<^verbatim>\<open>sum(xs)\<close> adds from the left, starting from the integer 0 and rounding after every
  addition (as the interpreter does up to version 3.11; later versions compensate the
  rounding errors of the partial sums).
\<close>

definition float_sum :: "real list \<Rightarrow> real" where
  "float_sum xs = foldl float_add 0 xs"

text \<open>What \<^verbatim>\<open>float(text)\<close> returns: \<^verbatim>\<open>nan\<close> or a number, finite or infinite.\<close>

datatype py_float = Nan | Float real

subsection \<open>The environment\<close>

record env =
  float_of :: "string \<Rightarrow> py_float option"
  WORLD_PROVINCES :: "string set"
  WORLD_COUNTRIES :: "string set"
  clock :: "nat \<Rightarrow> datetime"
  set_order :: "string list \<Rightarrow> string \<Rightarrow> nat"

text \<open>
  \<^item> \<open>float_of\<close> is \<^verbatim>\<open>float(text)\<close>, \<open>None\<close> where it raises \<^verbatim>\<open>ValueError\<close>; the
    number it returns is a binary64 number or an infinity;
  \<^item> \<open>WORLD_PROVINCES\<close> and \<open>WORLD_COUNTRIES\<close> are the key sets of the two dictionaries
    built from \<^verbatim>\<open>pycountry\<close> (their values are never read);
  \<^item> \<open>clock k\<close> is what the \<open>k\<close>-th call of \<^verbatim>\<open>datetime.now()\<close> returns;
  \<^item> \<open>set_order xs\<close> ranks the elements of \<^verbatim>\<open>set(xs)\<close> in the order Python iterates
    them (a hash order the program does not control).
\<close>

definition CORRECT_PIN :: string where "CORRECT_PIN = ''1234''"
definition SIM_LAST_NAME :: string where "SIM_LAST_NAME = ''Wahdan''"
definition SIM_DOB :: string where "SIM_DOB = ''1990-05-14''"
definition SIM_CVV :: string where "SIM_CVV = ''123''"

definition ALBERTA_CITIES :: "string set" where
  "ALBERTA_CITIES = set [''calgary'', ''edmonton'', ''red deer'', ''lethbridge'',
     ''medicine hat'', ''airdrie'', ''st. albert'', ''fort mcmurray'', ''grand prairie'',
     ''okotoks'', ''cochrane'', ''spruce grove'', ''camrose'', ''brooks'', ''banff'',
     ''canmore'']"

definition MERCHANT_RISK_7 :: "string \<times> real" where
  "MERCHANT_RISK_7 = (''Other / Misc'', double (5 / 100))"

definition MERCHANT_RISK :: "(string \<times> string \<times> real) list" where
  "MERCHANT_RISK =
    [(''1'', (''Groceries / Essentials'', 0)),
     (''2'', (''Restaurants / Food'', double (5 / 100))),
     (''3'', (''Electronics / Tech'', double (10 / 100))),
     (''4'', (''Travel / Airline / Hotel'', double (15 / 100))),
     (''5'', (''Online / E-commerce / Marketplace'', double (20 / 100))),
     (''6'', (''Gift Cards / Crypto / Reloadables'', double (30 / 100))),
     (''7'', MERCHANT_RISK_7)]"

text \<open>\<^verbatim>\<open>MERCHANT_RISK.get(choice, MERCHANT_RISK["7"])\<close>.\<close>

definition merchant_get :: "string \<Rightarrow> string \<times> real" where
  "merchant_get choice =
     (case map_of MERCHANT_RISK choice of Some v \<Rightarrow> v | None \<Rightarrow> MERCHANT_RISK_7)"

text \<open>An entry of \<^verbatim>\<open>spending_history\<close>: the dict with keys amount, merchant, hour, region.\<close>

record tx =
  tx_amount :: real
  tx_merchant :: string
  tx_hour :: int
  tx_region :: string

text \<open>
  The reason strings, one constructor per message; the ones built with an f-string carry
  the value they format.
\<close>

datatype reason =
    Caution_spend_zone
  | Risk_spend_zone
  | High_risk_spend_zone
  | Severe_spend_zone
  | Critical_spend_zone
  | Outside_Alberta
  | Unknown_location
  | Late_night
  | Merchant_category string
  | High_velocity
  | Sudden_region_change
  | Unusually_high_amount real
  | Merchant_differs string
  | Time_unusual
  | Region_unusual string
  | Location_message string
  | Low_value_auto_approved
  | Verification_failed_declined
  | Verification_passed_successfully

subsection \<open>Strings\<close>

definition py_isspace :: "char \<Rightarrow> bool" where
  "py_isspace c = ((of_char c :: nat) \<in> set [9, 10, 11, 12, 13, 28, 29, 30, 31, 32])"

definition lower_char :: "char \<Rightarrow> char" where
  "lower_char c =
     (let n = (of_char c :: nat) in if 65 \<le> n \<and> n \<le> 90 then char_of (n + 32) else c)"

definition py_lower :: "string \<Rightarrow> string" where
  "py_lower s = map lower_char s"

definition py_strip :: "string \<Rightarrow> string" where
  "py_strip s = rev (dropWhile py_isspace (rev (dropWhile py_isspace s)))"

fun py_split :: "char \<Rightarrow> string \<Rightarrow> string list" where
  "py_split sep [] = [[]]"
| "py_split sep (c # cs) =
     (if c = sep then [] # py_split sep cs
      else (case py_split sep cs of [] \<Rightarrow> [[c]] | p # ps \<Rightarrow> (c # p) # ps))"

text \<open>\<^verbatim>\<open>x or "unknown"\<close>: \<^verbatim>\<open>None\<close> and the empty string are both falsy.\<close>

definition or_unknown :: "string option \<Rightarrow> string" where
  "or_unknown r = (case r of None \<Rightarrow> ''unknown'' | Some x \<Rightarrow> if x = [] then ''unknown'' else x)"

subsection \<open>Location validation\<close>

definition validate_location :: "env \<Rightarrow> string \<Rightarrow> string option \<times> bool \<times> string" where
  "validate_location e location =
     (let parts = py_split CHR '','' (py_strip (py_lower location)) in
      if length parts \<noteq> 2 then (None, False, ''Invalid format. Use: City, Region.'')
      else
        let city = py_strip (parts ! 0); region = py_strip (parts ! 1) in
        if city \<in> ALBERTA_CITIES \<and> region = ''ab'' then (Some ''ab'', True, ''Valid Alberta location'')
        else if region \<in> WORLD_PROVINCES e then (Some region, True, ''Valid world subdivision/state'')
        else if region \<in> WORLD_COUNTRIES e then (Some region, True, ''Valid world country'')
        else (None, False, ''Unknown location (not in global database)''))"

subsection \<open>Risk components\<close>

text \<open>Each factor returns its contribution and the reason list it was given, extended.\<close>

definition add_amount_zone_risk :: "real \<Rightarrow> reason list \<Rightarrow> real \<times> reason list" where
  "add_amount_zone_risk amount reasons =
     (if amount \<le> 500 then (0, reasons)
      else if amount \<le> 2000 then (double (10 / 100), reasons @ [Caution_spend_zone])
      else if amount \<le> 5000 then (double (20 / 100), reasons @ [Risk_spend_zone])
      else if amount \<le> 10000 then (double (30 / 100), reasons @ [High_risk_spend_zone])
      else if amount \<le> 20000 then (double (40 / 100), reasons @ [Severe_spend_zone])
      else (double (50 / 100), reasons @ [Critical_spend_zone]))"

definition add_location_risk :: "string option \<Rightarrow> reason list \<Rightarrow> real \<times> reason list" where
  "add_location_risk region reasons =
     (if region \<noteq> Some ''ab'' then (double (30 / 100), reasons @ [Outside_Alberta]) else (0, reasons))"

definition add_unknown_location_risk :: "bool \<Rightarrow> reason list \<Rightarrow> real \<times> reason list" where
  "add_unknown_location_risk known_location reasons =
     (if \<not> known_location then (double (10 / 100), reasons @ [Unknown_location]) else (0, reasons))"

definition add_time_of_day_risk :: "datetime \<Rightarrow> reason list \<Rightarrow> real \<times> reason list" where
  "add_time_of_day_risk now reasons =
     (if 0 \<le> hour now \<and> hour now < 5 then (double (10 / 100), reasons @ [Late_night]) else (0, reasons))"

definition add_merchant_risk :: "string \<Rightarrow> reason list \<Rightarrow> real \<times> reason list" where
  "add_merchant_risk merchant_choice reasons =
     (case merchant_get merchant_choice of
        (label, risk) \<Rightarrow> (risk, reasons @ [Merchant_category label]))"

definition add_velocity_risk :: "datetime option \<Rightarrow> datetime \<Rightarrow> reason list \<Rightarrow> real \<times> reason list" where
  "add_velocity_risk last_tx_time now reasons =
     (case last_tx_time of
        None \<Rightarrow> (0, reasons)
      | Some t \<Rightarrow>
          if now - t \<le> timedelta_seconds 60 then (double (15 / 100), reasons @ [High_velocity])
          else (0, reasons))"

definition add_location_jump_risk ::
  "string option \<Rightarrow> string option \<Rightarrow> reason list \<Rightarrow> real \<times> reason list" where
  "add_location_jump_risk last_region region reasons =
     (case last_region of
        None \<Rightarrow> (0, reasons)
      | Some l \<Rightarrow>
          if or_unknown region \<noteq> or_unknown (Some l) then (double (10 / 100), reasons @ [Sudden_region_change])
          else (0, reasons))"

subsection \<open>Spending pattern analysis\<close>

record patterns =
  avg_amount :: real
  frequent_merchant :: string
  avg_hour :: real
  frequent_region :: string

text \<open>
  \<^verbatim>\<open>max(iterable, key=f)\<close> keeps the first element whose key is maximal, and raises
  \<^verbatim>\<open>ValueError\<close> on an empty iterable.
\<close>

fun max_from :: "('a \<Rightarrow> nat) \<Rightarrow> 'a \<Rightarrow> 'a list \<Rightarrow> 'a" where
  "max_from key m [] = m"
| "max_from key m (x # xs) = max_from key (if key m < key x then x else m) xs"

definition py_max :: "'a list \<Rightarrow> ('a \<Rightarrow> nat) \<Rightarrow> py_error + 'a" where
  "py_max xs key = (case xs of [] \<Rightarrow> Inl ValueError | x # ys \<Rightarrow> Inr (max_from key x ys))"

text \<open>The elements of \<^verbatim>\<open>set(xs)\<close>, in the order the environment iterates them.\<close>

definition py_set :: "env \<Rightarrow> string list \<Rightarrow> string list" where
  "py_set e xs = sort_key (set_order e xs) (remdups xs)"

definition analyze_spending_patterns :: "env \<Rightarrow> tx list \<Rightarrow> py_error + patterns option" where
  "analyze_spending_patterns e spending_history =
     (if length spending_history < 5 then Inr None
      else
        let amounts = map tx_amount spending_history;
            merchants = map tx_merchant spending_history;
            hours = map tx_hour spending_history;
            regions = map tx_region spending_history
        in
        case py_max (py_set e merchants) (count_list merchants) of
          Inl err \<Rightarrow> Inl err
        | Inr fm \<Rightarrow>
            (case py_max (py_set e regions) (count_list regions) of
               Inl err \<Rightarrow> Inl err
             | Inr fr \<Rightarrow>
                 Inr (Some \<lparr>avg_amount = float_div (float_sum amounts) (real (length amounts)),
                            frequent_merchant = fm,
                            avg_hour = double (real_of_int (sum_list hours) / real (length hours)),
                            frequent_region = fr\<rparr>)))"

definition add_behavioral_risk ::
  "env \<Rightarrow> tx list \<Rightarrow> real \<Rightarrow> string \<Rightarrow> datetime \<Rightarrow> string \<Rightarrow> reason list
     \<Rightarrow> py_error + (real \<times> reason list)" where
  "add_behavioral_risk e spending_history amount merchant_label now region reasons =
     (case analyze_spending_patterns e spending_history of
        Inl err \<Rightarrow> Inl err
      | Inr None \<Rightarrow> Inr (0, reasons)
      | Inr (Some p) \<Rightarrow>
          let (risk1, reasons1) =
                (if amount > float_mul (avg_amount p) 3
                 then (float_add 0 (double (20 / 100)), reasons @ [Unusually_high_amount (avg_amount p)])
                 else (0, reasons));
              (risk2, reasons2) =
                (if merchant_label \<noteq> frequent_merchant p
                 then (float_add risk1 (double (10 / 100)),
                       reasons1 @ [Merchant_differs (frequent_merchant p)])
                 else (risk1, reasons1));
              (risk3, reasons3) =
                (if \<bar>float_sub (real_of_int (hour now)) (avg_hour p)\<bar> > 6
                 then (float_add risk2 (double (10 / 100)), reasons2 @ [Time_unusual])
                 else (risk2, reasons2));
              (risk4, reasons4) =
                (if region \<noteq> frequent_region p
                 then (float_add risk3 (double (10 / 100)),
                       reasons3 @ [Region_unusual (frequent_region p)])
                 else (risk3, reasons3))
          in Inr (risk4, reasons4))"

subsection \<open>Decision\<close>

definition decide :: "real \<Rightarrow> string" where
  "decide risk =
     (if risk < double (50 / 100) then ''APPROVED''
      else if double (50 / 100) \<le> risk \<and> risk \<le> double (80 / 100) then ''APPROVED (FLAGGED)''
      else if double (80 / 100) < risk \<and> risk \<le> double (90 / 100) then ''CALL BANK (Verification Recommended)''
      else if double (90 / 100) < risk \<and> risk < 1 then ''CARD UNDER REVIEW (High Risk)''
      else ''CRITICAL RISK (Manual Review Needed)'')"

section \<open>Input and output\<close>

datatype prompt =
    Ask_amount | Ask_location | Ask_merchant | Ask_again
  | Ask_last_name | Ask_dob | Ask_cvv | Ask_pin | Ask_option

datatype tier = FULL | PIN_PLUS_ONE | PIN_ONLY

datatype mismatch =
    Last_name_mismatch | Birthdate_mismatch | CVV_mismatch | PIN_incorrect | Invalid_choice

datatype block_text = CARD_FROZEN | CARD_PERMANENTLY_BLOCKED

text \<open>
  What the program writes, in order: one event per \<^verbatim>\<open>print\<close> block and one per prompt
  of \<^verbatim>\<open>input\<close>.
\<close>

datatype event =
    Banner
  | New_transaction
  | Prompt prompt
  | Amount_must_be_positive
  | Invalid_input
  | Merchant_menu
  | Verification_triggered real real
  | Verification_required
  | Tier tier
  | Option_menu
  | Verification_failed mismatch
  | Verification_passed
  | Fraud_result real string "reason list"
  | Multiple_failed_attempts
  | Block_instructions block_text
  | Session_summary "(real \<times> string) list"
  | Final_status bool
  | Pattern_summary patterns

record world =
  stdin :: "string list"
  ticks :: nat
  stdout :: "event list"

definition print :: "event \<Rightarrow> world \<Rightarrow> world" where
  "print ev w = w\<lparr>stdout := stdout w @ [ev]\<rparr>"

definition input :: "prompt \<Rightarrow> world \<Rightarrow> py_error + (string \<times> world)" where
  "input p w =
     (case stdin w of
        [] \<Rightarrow> Inl EOFError
      | line # rest \<Rightarrow> Inr (line, w\<lparr>stdin := rest, stdout := stdout w @ [Prompt p]\<rparr>))"

definition datetime_now :: "env \<Rightarrow> world \<Rightarrow> datetime \<times> world" where
  "datetime_now e w = (clock e (ticks w), w\<lparr>ticks := Suc (ticks w)\<rparr>)"

definition print_block_instructions :: "string \<Rightarrow> world \<Rightarrow> world" where
  "print_block_instructions block_type w =
     (if block_type = ''frozen'' then print (Block_instructions CARD_FROZEN) w
      else print (Block_instructions CARD_PERMANENTLY_BLOCKED) w)"

section \<open>Verification\<close>

text \<open>The three tiers of \<^verbatim>\<open>run_verification\<close>, each the body of its \<^verbatim>\<open>if\<close>.\<close>

definition full_verification :: "world \<Rightarrow> py_error + (bool \<times> world)" where
  "full_verification w0 =
     (case input Ask_last_name (print (Tier FULL) w0) of
        Inl err \<Rightarrow> Inl err
      | Inr (last_name, w1) \<Rightarrow>
          if py_lower (py_strip last_name) \<noteq> py_lower SIM_LAST_NAME
          then Inr (False, print (Verification_failed Last_name_mismatch) w1)
          else
            (case input Ask_dob w1 of
               Inl err \<Rightarrow> Inl err
             | Inr (dob, w2) \<Rightarrow>
                 if py_strip dob \<noteq> SIM_DOB
                 then Inr (False, print (Verification_failed Birthdate_mismatch) w2)
                 else
                   (case input Ask_cvv w2 of
                      Inl err \<Rightarrow> Inl err
                    | Inr (cvv, w3) \<Rightarrow>
                        if py_strip cvv \<noteq> SIM_CVV
                        then Inr (False, print (Verification_failed CVV_mismatch) w3)
                        else
                          (case input Ask_pin w3 of
                             Inl err \<Rightarrow> Inl err
                           | Inr (pin, w4) \<Rightarrow>
                               if py_strip pin \<noteq> CORRECT_PIN
                               then Inr (False, print (Verification_failed PIN_incorrect) w4)
                               else Inr (True, print Verification_passed w4)))))"

definition mid_verification :: "world \<Rightarrow> py_error + (bool \<times> world)" where
  "mid_verification w0 =
     (case input Ask_pin (print (Tier PIN_PLUS_ONE) w0) of
        Inl err \<Rightarrow> Inl err
      | Inr (pin, w1) \<Rightarrow>
          if py_strip pin \<noteq> CORRECT_PIN
          then Inr (False, print (Verification_failed PIN_incorrect) w1)
          else
            (case input Ask_option (print Option_menu w1) of
               Inl err \<Rightarrow> Inl err
             | Inr (c, w2) \<Rightarrow>
                 let choice = py_strip c in
                 if choice = ''1'' then
                   (case input Ask_last_name w2 of
                      Inl err \<Rightarrow> Inl err
                    | Inr (last_name, w3) \<Rightarrow>
                        if py_lower (py_strip last_name) \<noteq> py_lower SIM_LAST_NAME
                        then Inr (False, print (Verification_failed Last_name_mismatch) w3)
                        else Inr (True, print Verification_passed w3))
                 else if choice = ''2'' then
                   (case input Ask_dob w2 of
                      Inl err \<Rightarrow> Inl err
                    | Inr (dob, w3) \<Rightarrow>
                        if py_strip dob \<noteq> SIM_DOB
                        then Inr (False, print (Verification_failed Birthdate_mismatch) w3)
                        else Inr (True, print Verification_passed w3))
                 else if choice = ''3'' then
                   (case input Ask_cvv w2 of
                      Inl err \<Rightarrow> Inl err
                    | Inr (cvv, w3) \<Rightarrow>
                        if py_strip cvv \<noteq> SIM_CVV
                        then Inr (False, print (Verification_failed CVV_mismatch) w3)
                        else Inr (True, print Verification_passed w3))
                 else Inr (False, print (Verification_failed Invalid_choice) w2)))"

definition pin_verification :: "world \<Rightarrow> py_error + (bool \<times> world)" where
  "pin_verification w0 =
     (case input Ask_pin (print (Tier PIN_ONLY) w0) of
        Inl err \<Rightarrow> Inl err
      | Inr (pin, w1) \<Rightarrow>
          if py_strip pin \<noteq> CORRECT_PIN
          then Inr (False, print (Verification_failed PIN_incorrect) w1)
          else Inr (True, print Verification_passed w1))"

definition run_verification :: "real \<Rightarrow> real \<Rightarrow> world \<Rightarrow> py_error + (bool \<times> world)" where
  "run_verification amount risk w0 =
     (let w = print Verification_required w0;
          full_check = (amount > 5000 \<or> risk \<ge> double (90 / 100));
          mid_check = (amount > 2000 \<or> risk \<ge> double (70 / 100));
          pin_only = (amount > 1000 \<or> risk \<ge> double (50 / 100))
      in if full_check then full_verification w
         else if mid_check then mid_verification w
         else if pin_only then pin_verification w
         else Inr (True, w))"

section \<open>The session loop\<close>

text \<open>The variables of \<^verbatim>\<open>main\<close> and the module's \<^verbatim>\<open>spending_history\<close>.\<close>

record session =
  flagged_count :: int
  pin_fails :: int
  card_blocked :: bool
  session_log :: "(real \<times> string) list"
  last_tx_time :: "datetime option"
  last_region :: "string option"
  spending_history :: "tx list"

datatype control = Continue | Break

text \<open>
  \<^verbatim>\<open>round(risk, 2)\<close>: the float nearest to the two-decimal number nearest to \<open>risk\<close>, a
  tie going to the even digit.
\<close>

definition py_round2 :: "real \<Rightarrow> real" where
  "py_round2 x = double (of_int (round_half_even (x * 100)) / 100)"

text \<open>
  The amount prompt: it reads lines until one parses to a positive number (\<^verbatim>\<open>nan > 0\<close>
  is false). The \<^verbatim>\<open>input\<close> call stands outside the \<^verbatim>\<open>try\<close>, so the end of the input
  is an error.
\<close>

fun amount_loop ::
  "env \<Rightarrow> string list \<Rightarrow> event list \<Rightarrow> py_error + (real \<times> string list \<times> event list)" where
  "amount_loop e [] out = Inl EOFError"
| "amount_loop e (amt_input # rest) out =
     (case float_of e amt_input of
        None \<Rightarrow> amount_loop e rest (out @ [Prompt Ask_amount, Invalid_input])
      | Some Nan \<Rightarrow> amount_loop e rest (out @ [Prompt Ask_amount, Amount_must_be_positive])
      | Some (Float amount) \<Rightarrow>
          if amount > 0 then Inr (amount, rest, out @ [Prompt Ask_amount])
          else amount_loop e rest (out @ [Prompt Ask_amount, Amount_must_be_positive]))"

definition read_amount :: "env \<Rightarrow> world \<Rightarrow> py_error + (real \<times> world)" where
  "read_amount e w =
     (case amount_loop e (stdin w) (stdout w) of
        Inl err \<Rightarrow> Inl err
      | Inr (amount, rest, out) \<Rightarrow> Inr (amount, w\<lparr>stdin := rest, stdout := out\<rparr>))"

text \<open>The quick auto-approval of an amount below 150.\<close>

definition auto_approve ::
  "session \<Rightarrow> real \<Rightarrow> datetime \<Rightarrow> world \<Rightarrow> py_error + (control \<times> session \<times> world)" where
  "auto_approve s amount now w0 =
     (let w1 = print (Fraud_result 0 ''APPROVED'' [Low_value_auto_approved]) w0;
          s1 = s\<lparr>session_log := session_log s @ [(0, ''APPROVED (Low-value auto-approve)'')],
                 spending_history := spending_history s @
                   [\<lparr>tx_amount = amount, tx_merchant = ''Low-Value Auto-Approved'',
                     tx_hour = hour now, tx_region = ''ab''\<rparr>],
                 last_tx_time := Some now,
                 last_region := Some ''ab''\<rparr>
      in case input Ask_again w1 of
           Inl err \<Rightarrow> Inl err
         | Inr (again, w2) \<Rightarrow>
             if py_lower again \<noteq> ''yes'' then Inr (Break, s1, w2) else Inr (Continue, s1, w2))"

text \<open>
  The score before the cut: \<^verbatim>\<open>risk = 0.0\<close> and eight times \<^verbatim>\<open>risk += ...\<close>, in the order
  of the source, each factor extending the list of reasons.
\<close>

definition risk_calculation ::
  "env \<Rightarrow> session \<Rightarrow> real \<Rightarrow> datetime \<Rightarrow> string option \<Rightarrow> bool \<Rightarrow> string \<Rightarrow> string
     \<Rightarrow> py_error + (real \<times> reason list)" where
  "risk_calculation e s amount now region known_location choice merchant_label =
     (let (r1, reasons1) = add_amount_zone_risk amount [];
          (r2, reasons2) = add_location_risk region reasons1;
          (r3, reasons3) = add_unknown_location_risk known_location reasons2;
          (r4, reasons4) = add_time_of_day_risk now reasons3;
          (r5, reasons5) = add_merchant_risk choice reasons4;
          (r6, reasons6) = add_velocity_risk (last_tx_time s) now reasons5;
          (r7, reasons7) = add_location_jump_risk (last_region s) region reasons6
      in case add_behavioral_risk e (spending_history s) amount merchant_label now
                (or_unknown region) reasons7 of
           Inl err \<Rightarrow> Inl err
         | Inr (r8, reasons8) \<Rightarrow>
             Inr (foldl float_add 0 [r1, r2, r3, r4, r5, r6, r7, r8], reasons8))"

text \<open>After a failed verification: the counters, the declined result and the escalation.\<close>

definition ask_again_after_failure ::
  "session \<Rightarrow> datetime \<Rightarrow> string option \<Rightarrow> world \<Rightarrow> py_error + (control \<times> session \<times> world)" where
  "ask_again_after_failure s now region w =
     (case input Ask_again w of
        Inl err \<Rightarrow> Inl err
      | Inr (again, w1) \<Rightarrow>
          if py_lower again \<noteq> ''yes'' then Inr (Break, s, w1)
          else Inr (Continue, s\<lparr>last_tx_time := Some now, last_region := Some (or_unknown region)\<rparr>, w1))"

definition verification_failed ::
  "session \<Rightarrow> datetime \<Rightarrow> string option \<Rightarrow> real \<Rightarrow> reason list \<Rightarrow> world
     \<Rightarrow> py_error + (control \<times> session \<times> world)" where
  "verification_failed s now region risk reasons w0 =
     (let s1 = s\<lparr>pin_fails := pin_fails s + 1, flagged_count := flagged_count s + 1\<rparr>;
          reasons1 = reasons @ [Verification_failed_declined];
          w1 = print (Fraud_result risk ''DECLINED (Failed Verification)'' reasons1) w0;
          s2 = s1\<lparr>session_log := session_log s1 @
                     [(py_round2 risk, ''DECLINED (Failed Verification)'')]\<rparr>
      in if pin_fails s2 = 3 then
           ask_again_after_failure s2 now region (print Multiple_failed_attempts w1)
         else if pin_fails s2 = 5 then
           Inr (Break, s2\<lparr>card_blocked := True\<rparr>, print_block_instructions ''frozen'' w1)
         else if pin_fails s2 \<ge> 7 then
           Inr (Break, s2\<lparr>card_blocked := True\<rparr>, print_block_instructions ''blocked'' w1)
         else ask_again_after_failure s2 now region w1)"

text \<open>The final decision output, the state update and the flag-based freeze.\<close>

definition final_decision ::
  "session \<Rightarrow> real \<Rightarrow> datetime \<Rightarrow> string option \<Rightarrow> string \<Rightarrow> real \<Rightarrow> string \<Rightarrow> reason list
     \<Rightarrow> world \<Rightarrow> py_error + (control \<times> session \<times> world)" where
  "final_decision s amount now region merchant_label risk decision reasons w0 =
     (let w1 = print (Fraud_result risk decision reasons) w0;
          s1 = s\<lparr>last_tx_time := Some now,
                 last_region := Some (or_unknown region),
                 spending_history := spending_history s @
                   [\<lparr>tx_amount = amount, tx_merchant = merchant_label,
                     tx_hour = hour now, tx_region = or_unknown region\<rparr>]\<rparr>;
          s2 = (if decision \<noteq> ''APPROVED'' then s1\<lparr>flagged_count := flagged_count s1 + 1\<rparr>
                else s1)
      in if flagged_count s2 \<ge> 5 then
           Inr (Break, s2\<lparr>card_blocked := True\<rparr>, print_block_instructions ''frozen'' w1)
         else
           (case input Ask_again w1 of
              Inl err \<Rightarrow> Inl err
            | Inr (again, w2) \<Rightarrow>
                if py_lower again \<noteq> ''yes'' then Inr (Break, s2, w2) else Inr (Continue, s2, w2)))"

text \<open>
  A transaction of 150 or more, first half: location, merchant type and the score.
  The values the second half reads are collected in a record.
\<close>

record assessment =
  a_region :: "string option"
  a_merchant_label :: string
  a_risk :: real
  a_decision :: string
  a_reasons :: "reason list"

definition assess ::
  "env \<Rightarrow> session \<Rightarrow> real \<Rightarrow> datetime \<Rightarrow> world \<Rightarrow> py_error + (assessment \<times> world)" where
  "assess e s amount now w0 =
     (case input Ask_location w0 of
        Inl err \<Rightarrow> Inl err
      | Inr (location, w1) \<Rightarrow>
          (case validate_location e location of
             (region, known_location, loc_reason) \<Rightarrow>
               (case input Ask_merchant (print Merchant_menu w1) of
                  Inl err \<Rightarrow> Inl err
                | Inr (c, w2) \<Rightarrow>
                    let choice = (if map_of MERCHANT_RISK (py_strip c) = None then ''7''
                                  else py_strip c);
                        merchant_label = fst (merchant_get choice)
                    in
                    (case risk_calculation e s amount now region known_location choice
                            merchant_label of
                       Inl err \<Rightarrow> Inl err
                     | Inr (risk0, reasons0) \<Rightarrow>
                         let reasons = reasons0 @ [Location_message loc_reason];
                             risk = min risk0 1;
                             decision = decide risk
                         in Inr (\<lparr>a_region = region, a_merchant_label = merchant_label,
                                  a_risk = risk, a_decision = decision,
                                  a_reasons = reasons\<rparr>, w2)))))"

text \<open>Second half: the verification logic and the outcome.\<close>

definition verification_logic ::
  "session \<Rightarrow> real \<Rightarrow> datetime \<Rightarrow> assessment \<Rightarrow> world
     \<Rightarrow> py_error + (control \<times> session \<times> world)" where
  "verification_logic s amount now a w0 =
     (let risk = a_risk a;
          verification_required = (amount > 1000 \<or> risk \<ge> double (50 / 100))
      in
      if verification_required then
        (case run_verification amount risk (print (Verification_triggered risk amount) w0) of
           Inl err \<Rightarrow> Inl err
         | Inr (verified, w1) \<Rightarrow>
             if \<not> verified then
               verification_failed s now (a_region a) risk (a_reasons a) w1
             else
               final_decision (s\<lparr>pin_fails := 0\<rparr>) amount now (a_region a)
                 (a_merchant_label a) risk (a_decision a)
                 (a_reasons a @ [Verification_passed_successfully]) w1)
      else
        final_decision s amount now (a_region a) (a_merchant_label a) risk (a_decision a)
          (a_reasons a) w0)"

definition scored_transaction ::
  "env \<Rightarrow> session \<Rightarrow> real \<Rightarrow> datetime \<Rightarrow> world \<Rightarrow> py_error + (control \<times> session \<times> world)" where
  "scored_transaction e s amount now w0 =
     (case assess e s amount now w0 of
        Inl err \<Rightarrow> Inl err
      | Inr (a, w1) \<Rightarrow> verification_logic s amount now a w1)"

text \<open>One pass through the body of \<^verbatim>\<open>while True\<close>.\<close>

definition transaction :: "env \<Rightarrow> session \<Rightarrow> world \<Rightarrow> py_error + (control \<times> session \<times> world)" where
  "transaction e s w0 =
     (if card_blocked s then Inr (Break, s, w0)
      else
        (case read_amount e (print New_transaction w0) of
           Inl err \<Rightarrow> Inl err
         | Inr (amount, w1) \<Rightarrow>
             (case datetime_now e w1 of
                (now, w2) \<Rightarrow>
                  if amount < 150 then auto_approve s amount now w2
                  else scored_transaction e s amount now w2)))"

text \<open>The loop, cut after \<open>n\<close> passes: the state at the head of the next pass.\<close>

fun loop_n :: "nat \<Rightarrow> env \<Rightarrow> session \<Rightarrow> world \<Rightarrow> py_error + (control \<times> session \<times> world)" where
  "loop_n 0 e s w = Inr (Continue, s, w)"
| "loop_n (Suc n) e s w =
     (case loop_n n e s w of
        Inl err \<Rightarrow> Inl err
      | Inr (Break, s1, w1) \<Rightarrow> Inr (Break, s1, w1)
      | Inr (Continue, s1, w1) \<Rightarrow> transaction e s1 w1)"

definition initial_session :: session where
  "initial_session =
     \<lparr>flagged_count = 0, pin_fails = 0, card_blocked = False, session_log = [],
      last_tx_time = None, last_region = None, spending_history = []\<rparr>"

text \<open>The world at the head of the first pass: the banner has been printed.\<close>

definition initial_world :: "string list \<Rightarrow> world" where
  "initial_world lines = \<lparr>stdin = lines, ticks = 0, stdout = [Banner]\<rparr>"

section \<open>Sample inputs\<close>

text \<open>
  An environment to run the program on: \<^verbatim>\<open>float\<close> restricted to plain digit strings, a
  few subdivisions and countries, a clock that starts at noon and advances ten minutes
  per reading, and sets iterated in the order \<^const>\<open>remdups\<close> leaves them.
\<close>

fun nat_of_digits :: "string \<Rightarrow> nat \<Rightarrow> nat option" where
  "nat_of_digits [] acc = Some acc"
| "nat_of_digits (c # cs) acc =
     (let n = (of_char c :: nat) in
      if 48 \<le> n \<and> n \<le> 57 then nat_of_digits cs (10 * acc + (n - 48)) else None)"

definition float_digits :: "string \<Rightarrow> py_float option" where
  "float_digits t =
     (if t = [] then None else map_option (\<lambda>n. Float (double (real n))) (nat_of_digits t 0))"

definition demo_env :: env where
  "demo_env =
     \<lparr>float_of = float_digits,
      WORLD_PROVINCES = set [''alberta'', ''ontario'', ''british columbia''],
      WORLD_COUNTRIES = set [''canada'', ''france''],
      clock = (\<lambda>k. 43200000000 + int k * 600000000),
      set_order = (\<lambda>xs x. 0)\<rparr>"


definition clamped_world :: world where
  "clamped_world = \<lparr>stdin = [''nowhere'', ''6''], ticks = 1, stdout = []\<rparr>"

definition clamped_assessment :: assessment where
  "clamped_assessment =
     \<lparr>a_region = None, a_merchant_label = ''Gift Cards / Crypto / Reloadables'',
      a_risk = 1, a_decision = ''CRITICAL RISK (Manual Review Needed)'',
      a_reasons = [Critical_spend_zone, Outside_Alberta, Unknown_location, Late_night,
        Merchant_category ''Gift Cards / Crypto / Reloadables'',
        Location_message ''Invalid format. Use: City, Region.'']\<rparr>"

text \<open>
  The assessment of the amount 3000 at an unresolvable location with merchant type 6:
  the score is the float below 0.9.
\<close>

definition rounded_assessment :: assessment where
  "rounded_assessment =
     \<lparr>a_region = None, a_merchant_label = ''Gift Cards / Crypto / Reloadables'',
      a_risk = 2026619832316723 / 2251799813685248,
      a_decision = ''CALL BANK (Verification Recommended)'',
      a_reasons = [Risk_spend_zone, Outside_Alberta, Unknown_location,
        Merchant_category ''Gift Cards / Crypto / Reloadables'',
        Location_message ''Invalid format. Use: City, Region.'']\<rparr>"


text \<open>Sample transactions: one that passes the full tier flagged, one that fails it.\<close>

definition pass_lines :: "string list" where
  "pass_lines = [''6000'', ''Calgary, AB'', ''6'', ''Wahdan'', ''1990-05-14'', ''123'', ''1234'', ''yes'']"

definition fail_lines :: "string list" where
  "fail_lines = [''6000'', ''Calgary, AB'', ''6'', ''Smith'']"

definition flagged_entry :: tx where
  "flagged_entry = \<lparr>tx_amount = 6000, tx_merchant = ''Gift Cards / Crypto / Reloadables'',
     tx_hour = 12, tx_region = ''ab''\<rparr>"

definition flagged_reasons :: "reason list" where
  "flagged_reasons = [High_risk_spend_zone,
     Merchant_category ''Gift Cards / Crypto / Reloadables'',
     Location_message ''Valid Alberta location'']"

definition scored_events :: "event list" where
  "scored_events = [New_transaction, Prompt Ask_amount, Prompt Ask_location, Merchant_menu,
     Prompt Ask_merchant, Verification_triggered (double (60 / 100)) 6000, Verification_required,
     Tier FULL, Prompt Ask_last_name]"

definition pass_events :: "event list" where
  "pass_events = scored_events @ [Prompt Ask_dob, Prompt Ask_cvv, Prompt Ask_pin,
     Verification_passed,
     Fraud_result (double (60 / 100)) ''APPROVED (FLAGGED)''
       (flagged_reasons @ [Verification_passed_successfully]),
     Prompt Ask_again]"

definition fail_events :: "event list" where
  "fail_events = scored_events @ [Verification_failed Last_name_mismatch,
     Fraud_result (double (60 / 100)) ''DECLINED (Failed Verification)''
       (flagged_reasons @ [Verification_failed_declined])]"

text \<open>Four flagged transactions that pass verification, then one that fails it.\<close>

definition flagged_then_failed :: "string list" where
  "flagged_then_failed =
     concat (replicate 4 pass_lines) @ fail_lines @ [''yes'', ''100'', ''yes'']"

definition flagged_session :: "nat \<Rightarrow> session" where
  "flagged_session k =
     \<lparr>flagged_count = int k, pin_fails = 0, card_blocked = False, session_log = [],
      last_tx_time = (if k = 0 then None else Some (clock demo_env (k - 1))),
      last_region = (if k = 0 then None else Some ''ab''),
      spending_history = replicate k flagged_entry\<rparr>"

definition flagged_world :: "nat \<Rightarrow> world" where
  "flagged_world k =
     \<lparr>stdin = drop (8 * k) flagged_then_failed, ticks = k,
      stdout = Banner # concat (replicate k pass_events)\<rparr>"

definition overflagged_session :: session where
  "overflagged_session =
     (flagged_session 4)\<lparr>flagged_count := 5, pin_fails := 1,
        session_log := [(double (60 / 100), ''DECLINED (Failed Verification)'')],
        last_tx_time := Some (clock demo_env 4)\<rparr>"

definition overflagged_world :: world where
  "overflagged_world =
     \<lparr>stdin = [''100'', ''yes''], ticks = 5,
      stdout = stdout (flagged_world 4) @ fail_events @ [Prompt Ask_again]\<rparr>"

definition still_running_session :: session where
  "still_running_session =
     overflagged_session\<lparr>
        session_log := session_log overflagged_session @
          [(0, ''APPROVED (Low-value auto-approve)'')],
        spending_history := spending_history overflagged_session @
          [\<lparr>tx_amount = 100, tx_merchant = ''Low-Value Auto-Approved'', tx_hour = 12,
            tx_region = ''ab''\<rparr>],
        last_tx_time := Some (clock demo_env 5)\<rparr>"

definition still_running_world :: world where
  "still_running_world =
     \<lparr>stdin = [], ticks = 6,
      stdout = stdout overflagged_world @
        [New_transaction, Prompt Ask_amount,
         Fraud_result 0 ''APPROVED'' [Low_value_auto_approved], Prompt Ask_again]\<rparr>"

text \<open>Five transactions in a row that fail verification.\<close>

definition five_failures :: "string list" where
  "five_failures = concat (replicate 4 (fail_lines @ [''yes''])) @ fail_lines"

definition failed_session :: "nat \<Rightarrow> session" where
  "failed_session k =
     \<lparr>flagged_count = int k, pin_fails = int k, card_blocked = (k = 5),
      session_log = replicate k (double (60 / 100), ''DECLINED (Failed Verification)''),
      last_tx_time = (if k = 0 then None else Some (clock demo_env (min k 4 - 1))),
      last_region = (if k = 0 then None else Some ''ab''),
      spending_history = []\<rparr>"

fun failed_output :: "nat \<Rightarrow> event list" where
  "failed_output 0 = [Banner]"
| "failed_output (Suc k) = failed_output k @ fail_events @
     (if Suc k = 3 then [Multiple_failed_attempts, Prompt Ask_again]
      else if Suc k = 5 then [Block_instructions CARD_FROZEN]
      else [Prompt Ask_again])"

definition failed_world :: "nat \<Rightarrow> world" where
  "failed_world k =
     \<lparr>stdin = drop (5 * k) five_failures, ticks = k, stdout = failed_output k\<rparr>"

text \<open>One failed verification, after which the user ends the session.\<close>

definition quit_lines :: "string list" where
  "quit_lines = fail_lines @ [''no'']"

definition quit_session :: session where
  "quit_session =
     initial_session\<lparr>flagged_count := 1, pin_fails := 1,
        session_log := [(double (60 / 100), ''DECLINED (Failed Verification)'')]\<rparr>"

definition quit_world :: world where
  "quit_world = \<lparr>stdin = [], ticks = 1, stdout = Banner # fail_events @ [Prompt Ask_again]\<rparr>"

text \<open>Worlds and an assessment for single verification dialogues.\<close>

definition mismatch_world :: world where
  "mismatch_world =
     \<lparr>stdin = [''WAHDAN '', ''1990-05-14'', ''999'', ''1234'', ''yes''], ticks = 1, stdout = []\<rparr>"

definition pin_world :: world where
  "pin_world = \<lparr>stdin = [''1234'', ''yes''], ticks = 1, stdout = []\<rparr>"

definition scenario_b :: assessment where
  "scenario_b =
     \<lparr>a_region = Some ''ab'', a_merchant_label = ''Groceries / Essentials'',
      a_risk = double (10 / 100), a_decision = ''APPROVED'',
      a_reasons = [Caution_spend_zone, Merchant_category ''Groceries / Essentials'',
        Location_message ''Valid Alberta location'']\<rparr>"

definition scenario_b_session :: session where
  "scenario_b_session =
     initial_session\<lparr>last_tx_time := Some 43200000000, last_region := Some ''ab'',
        spending_history := [\<lparr>tx_amount = 1500, tx_merchant = ''Groceries / Essentials'',
          tx_hour = 12, tx_region = ''ab''\<rparr>]\<rparr>"

section \<open>Observations used in the statements\<close>


text \<open>What was written between two states of the world.\<close>

definition new_events :: "world \<Rightarrow> world \<Rightarrow> event list" where
  "new_events w w' = drop (length (stdout w)) (stdout w')"

text \<open>The questions asked, in order.\<close>

fun asked :: "event list \<Rightarrow> prompt list" where
  "asked [] = []"
| "asked (Prompt p # evs) = p # asked evs"
| "asked (ev # evs) = asked evs"

text \<open>The decisions printed in a \<^verbatim>\<open>FRAUD RESULT\<close> block, in order.\<close>

fun decisions :: "event list \<Rightarrow> string list" where
  "decisions [] = []"
| "decisions (Fraud_result risk decision reasons # evs) = decision # decisions evs"
| "decisions (ev # evs) = decisions evs"

text \<open>The tiers announced, in order.\<close>

fun tiers :: "event list \<Rightarrow> tier list" where
  "tiers [] = []"
| "tiers (Tier t # evs) = t # tiers evs"
| "tiers (ev # evs) = tiers evs"

text \<open>The events of the verification dialogue, after its heading.\<close>

fun dialogue :: "event \<Rightarrow> bool" where
  "dialogue (Tier t) = True"
| "dialogue (Prompt p) = True"
| "dialogue Option_menu = True"
| "dialogue (Verification_failed m) = True"
| "dialogue Verification_passed = True"
| "dialogue ev = False"

text \<open>Events other than a result, the warning and the block instructions.\<close>

fun quiet :: "event \<Rightarrow> bool" where
  "quiet (Fraud_result risk decision reasons) = False"
| "quiet Multiple_failed_attempts = False"
| "quiet (Block_instructions b) = False"
| "quiet ev = True"

section \<open>Rounding\<close>

lemma pow2_pos: "0 < pow2 k"
  by (simp add: pow2_def)

lemma round_half_even_nonneg: "0 \<le> y \<Longrightarrow> 0 \<le> round_half_even y"
  by (simp add: round_half_even_def)

lemma double_nonneg: "0 \<le> x \<Longrightarrow> 0 \<le> double x"
proof -
  assume x: "0 \<le> x"
  have q: "0 < pow2 (exponent \<bar>x\<bar> - 52)" by (rule pow2_pos)
  with x have "0 \<le> x / pow2 (exponent \<bar>x\<bar> - 52)" by simp
  then have "0 \<le> round_half_even (x / pow2 (exponent \<bar>x\<bar> - 52))"
    by (rule round_half_even_nonneg)
  with q have r: "0 \<le> round_at (exponent \<bar>x\<bar>) x" by (simp add: round_at_def)
  have "0 \<le> float_inf" using pow2_pos [of 1024] by (simp add: float_inf_def)
  with r have "0 \<le> overflow (round_at (exponent \<bar>x\<bar>) x)"
    by (simp add: overflow_def sgn_if)
  then show ?thesis by (simp add: double_def)
qed

lemma float_add_nonneg: "0 \<le> x \<Longrightarrow> 0 \<le> y \<Longrightarrow> 0 \<le> float_add x y"
  using pow2_pos [of 1024] by (simp add: float_add_def float_inf_def double_nonneg)

lemma float_sum_nonneg: "0 \<le> a \<Longrightarrow> \<forall>x\<in>set xs. 0 \<le> x \<Longrightarrow> 0 \<le> foldl float_add a xs"
  by (induction xs arbitrary: a) (simp_all add: float_add_nonneg)

text \<open>Rules to evaluate the operations on numerals.\<close>

lemma replicate_numeral: "replicate (numeral k) x = x # replicate (pred_numeral k) x"
  by (simp add: numeral_eq_Suc)

lemma drop_numeral_Cons: "drop (numeral k) (x # xs) = drop (pred_numeral k) xs"
  by (simp add: numeral_eq_Suc)

lemma exponent_up_numeral:
  "exponent_up (numeral n) k a =
     (if a < pow2 (k + 1) then k else exponent_up (pred_numeral n) (k + 1) a)"
  by (simp add: numeral_eq_Suc)

lemma exponent_down_numeral:
  "exponent_down (numeral n) k a =
     (if pow2 k \<le> a then k else exponent_down (pred_numeral n) (k - 1) a)"
  by (simp add: numeral_eq_Suc)

lemmas float_eval = double_def exponent_def exponent_up_numeral exponent_down_numeral pow2_def
  round_half_even_def float_inf_def round_at_def overflow_def
  float_add_def float_sub_def float_mul_def float_div_def float_sum_def

text \<open>
  Rounding at the ends of the range: the largest finite number, the overflow to
  \<^verbatim>\<open>inf\<close> halfway above it, the smallest subnormal number and the underflow to 0.
\<close>

lemma double_range:
  "double (2 ^ 1024 - 2 ^ 971) = 2 ^ 1024 - 2 ^ 971"
  "double (2 ^ 1024 - 2 ^ 970) = float_inf"
  "double (1 / 2 ^ 1074) = 1 / 2 ^ 1074"
  "double (1 / 2 ^ 1075) = 0"
  by (simp_all add: float_eval)

text \<open>The literals of the module.\<close>

lemma literals:
  "double (5 / 100) = 3602879701896397 / 72057594037927936"
  "double (10 / 100) = 3602879701896397 / 36028797018963968"
  "double (15 / 100) = 5404319552844595 / 36028797018963968"
  "double (20 / 100) = 3602879701896397 / 18014398509481984"
  "double (30 / 100) = 5404319552844595 / 18014398509481984"
  "double (40 / 100) = 3602879701896397 / 9007199254740992"
  "double (50 / 100) = 1 / 2"
  "double (70 / 100) = 3152519739159347 / 4503599627370496"
  "double (80 / 100) = 3602879701896397 / 4503599627370496"
  "double (90 / 100) = 8106479329266893 / 9007199254740992"
  by (simp_all add: float_eval)

text \<open>
  Sums, a quotient and a product that round: 0.2 + 0.3 + 0.1 + 0.3 is
  0.8999999999999999, 0.4 + 0.3 + 0.1 + 0.1 + 0.1 is 0.9999999999999999, 0.2 + 0.1 is
  0.30000000000000004, the average of five times 51.24 is 51.239999999999995 and its
  triple 153.71999999999997, while 0.3 + 0.3 is the literal 0.6.
\<close>

lemma rounded_values:
  "foldl float_add 0 [double (20 / 100), double (30 / 100), double (10 / 100), double (30 / 100)] =
     2026619832316723 / 2251799813685248"
  "foldl float_add 0 [double (40 / 100), double (30 / 100), double (10 / 100), double (10 / 100), double (10 / 100)] =
     9007199254740991 / 9007199254740992"
  "foldl float_add 0 [double (20 / 100), double (10 / 100)] = 1351079888211149 / 4503599627370496"
  "float_div (float_sum [double (5124 / 100), double (5124 / 100), double (5124 / 100), double (5124 / 100), double (5124 / 100)]) 5 =
     3605694451663503 / 70368744177664"
  "float_mul (3605694451663503 / 70368744177664) 3 = 2704270838747627 / 17592186044416"
  "foldl float_add 0 [double (30 / 100), double (30 / 100)] = double (60 / 100)"
  by (simp_all add: float_eval)

lemma rounded_values_decimal:
  "\<bar>2026619832316723 / 2251799813685248 - 8999999999999999 / 10 ^ 16\<bar> < (1 / 10 ^ 16 :: real)"
  "\<bar>9007199254740991 / 9007199254740992 - 9999999999999999 / 10 ^ 16\<bar> < (1 / 10 ^ 16 :: real)"
  "\<bar>1351079888211149 / 4503599627370496 - 30000000000000004 / 10 ^ 17\<bar> < (1 / 10 ^ 17 :: real)"
  "\<bar>3605694451663503 / 70368744177664 - 51239999999999995 / 10 ^ 15\<bar> < (1 / 10 ^ 15 :: real)"
  "\<bar>2704270838747627 / 17592186044416 - 15371999999999997 / 10 ^ 14\<bar> < (1 / 10 ^ 14 :: real)"
  by simp_all

section \<open>The risk factors\<close>

text \<open>
  C7. The amount-zone factor follows its table: nothing up to 500, then 0.10 up to 2000,
  0.20 up to 5000, 0.30 up to 10000, 0.40 up to 20000 and 0.50 above; the bands exclude
  each other, and each adds its own reason (none in the first band).
\<close>

theorem amount_zone_table:
  "(amount \<le> 500 \<longrightarrow> add_amount_zone_risk amount rs = (0, rs)) \<and>
   (500 < amount \<and> amount \<le> 2000 \<longrightarrow>
      add_amount_zone_risk amount rs = (double (10 / 100), rs @ [Caution_spend_zone])) \<and>
   (2000 < amount \<and> amount \<le> 5000 \<longrightarrow>
      add_amount_zone_risk amount rs = (double (20 / 100), rs @ [Risk_spend_zone])) \<and>
   (5000 < amount \<and> amount \<le> 10000 \<longrightarrow>
      add_amount_zone_risk amount rs = (double (30 / 100), rs @ [High_risk_spend_zone])) \<and>
   (10000 < amount \<and> amount \<le> 20000 \<longrightarrow>
      add_amount_zone_risk amount rs = (double (40 / 100), rs @ [Severe_spend_zone])) \<and>
   (20000 < amount \<longrightarrow>
      add_amount_zone_risk amount rs = (double (50 / 100), rs @ [Critical_spend_zone]))"
  by (simp add: add_amount_zone_risk_def)

text \<open>The table at both ends of every band.\<close>

theorem amount_zone_table_witness:
  "add_amount_zone_risk 500 [] = (0, []) \<and>
   add_amount_zone_risk 501 [] = (double (10 / 100), [Caution_spend_zone]) \<and>
   add_amount_zone_risk 2000 [] = (double (10 / 100), [Caution_spend_zone]) \<and>
   add_amount_zone_risk 2001 [] = (double (20 / 100), [Risk_spend_zone]) \<and>
   add_amount_zone_risk 5000 [] = (double (20 / 100), [Risk_spend_zone]) \<and>
   add_amount_zone_risk 5001 [] = (double (30 / 100), [High_risk_spend_zone]) \<and>
   add_amount_zone_risk 10000 [] = (double (30 / 100), [High_risk_spend_zone]) \<and>
   add_amount_zone_risk 10001 [] = (double (40 / 100), [Severe_spend_zone]) \<and>
   add_amount_zone_risk 20000 [] = (double (40 / 100), [Severe_spend_zone]) \<and>
   add_amount_zone_risk 20001 [] = (double (50 / 100), [Critical_spend_zone])"
  using amount_zone_table [of 500 "[]"] amount_zone_table [of 501 "[]"]
    amount_zone_table [of 2000 "[]"] amount_zone_table [of 2001 "[]"]
    amount_zone_table [of 5000 "[]"] amount_zone_table [of 5001 "[]"]
    amount_zone_table [of 10000 "[]"] amount_zone_table [of 10001 "[]"]
    amount_zone_table [of 20000 "[]"] amount_zone_table [of 20001 "[]"]
  by simp







lemma behavioral_value:
  assumes "analyze_spending_patterns e h = Inr (Some p)"
  shows "add_behavioral_risk e h amount m now r rs =
     Inr (foldl float_add 0
            ((if amount > float_mul (avg_amount p) 3 then [double (20 / 100)] else []) @
             (if m \<noteq> frequent_merchant p then [double (10 / 100)] else []) @
             (if \<bar>float_sub (real_of_int (hour now)) (avg_hour p)\<bar> > 6 then [double (10 / 100)] else []) @
             (if r \<noteq> frequent_region p then [double (10 / 100)] else [])),
          rs @ (if amount > float_mul (avg_amount p) 3
                then [Unusually_high_amount (avg_amount p)] else []) @
               (if m \<noteq> frequent_merchant p then [Merchant_differs (frequent_merchant p)] else []) @
               (if \<bar>float_sub (real_of_int (hour now)) (avg_hour p)\<bar> > 6 then [Time_unusual] else []) @
               (if r \<noteq> frequent_region p then [Region_unusual (frequent_region p)] else []))"
  using assms by (simp add: add_behavioral_risk_def)





section \<open>The composite score\<close>

lemma merchant_get_nonneg: "0 \<le> snd (merchant_get choice)"
  by (simp add: merchant_get_def MERCHANT_RISK_def MERCHANT_RISK_7_def double_nonneg)

lemma behavioral_nonneg:
  assumes "add_behavioral_risk e h amount m now r rs = Inr (r8, rs8)"
  shows "0 \<le> r8"
proof (cases "analyze_spending_patterns e h")
  case (Inl err)
  with assms show ?thesis by (simp add: add_behavioral_risk_def)
next
  case (Inr po)
  show ?thesis
  proof (cases po)
    case None
    with Inr assms show ?thesis by (simp add: add_behavioral_risk_def)
  next
    case (Some p)
    with Inr have a: "analyze_spending_patterns e h = Inr (Some p)" by simp
    let ?xs = "(if amount > float_mul (avg_amount p) 3 then [double (20 / 100)] else []) @
             (if m \<noteq> frequent_merchant p then [double (10 / 100)] else []) @
             (if \<bar>float_sub (real_of_int (hour now)) (avg_hour p)\<bar> > 6 then [double (10 / 100)] else []) @
             (if r \<noteq> frequent_region p then [double (10 / 100)] else [])"
    from behavioral_value [OF a, of amount m now r rs] assms
    have eq: "r8 = foldl float_add 0 ?xs" by (simp only: sum.inject prod.inject)
    have "\<forall>x\<in>set ?xs. 0 \<le> x" by (auto simp: double_nonneg)
    from float_sum_nonneg [OF order_refl this] show ?thesis by (simp only: eq)
  qed
qed

lemma behavioral_reasons_irrelevant:
  assumes "add_behavioral_risk e h amount m now r rs = Inr (r8, rs8)"
  shows "\<exists>rs0. add_behavioral_risk e h amount m now r [] = Inr (r8, rs0)"
proof (cases "analyze_spending_patterns e h")
  case (Inl err)
  with assms show ?thesis by (simp add: add_behavioral_risk_def)
next
  case (Inr po)
  show ?thesis
  proof (cases po)
    case None
    with Inr assms show ?thesis by (simp add: add_behavioral_risk_def)
  next
    case (Some p)
    with Inr have a: "analyze_spending_patterns e h = Inr (Some p)" by simp
    from behavioral_value [OF a, of amount m now r rs] behavioral_value [OF a, of amount m now r "[]"]
      assms show ?thesis by simp
  qed
qed

lemma factor_values:
  "fst (add_amount_zone_risk amount rs) =
     (if amount \<le> 500 then 0 else if amount \<le> 2000 then double (10 / 100)
      else if amount \<le> 5000 then double (20 / 100) else if amount \<le> 10000 then double (30 / 100)
      else if amount \<le> 20000 then double (40 / 100) else double (50 / 100))"
  "fst (add_location_risk region rs) = (if region \<noteq> Some ''ab'' then double (30 / 100) else 0)"
  "fst (add_unknown_location_risk known_location rs) = (if \<not> known_location then double (10 / 100) else 0)"
  "fst (add_time_of_day_risk now rs) = (if 0 \<le> hour now \<and> hour now < 5 then double (10 / 100) else 0)"
  "fst (add_merchant_risk choice rs) = snd (merchant_get choice)"
  "fst (add_velocity_risk last_time now rs) =
     (case last_time of None \<Rightarrow> 0
      | Some t \<Rightarrow> if now - t \<le> timedelta_seconds 60 then double (15 / 100) else 0)"
  "fst (add_location_jump_risk last_reg region rs) =
     (case last_reg of None \<Rightarrow> 0
      | Some l \<Rightarrow> if or_unknown region \<noteq> or_unknown (Some l) then double (10 / 100) else 0)"
  by (simp_all add: add_amount_zone_risk_def add_location_risk_def
        add_unknown_location_risk_def add_time_of_day_risk_def add_merchant_risk_def
        add_velocity_risk_def add_location_jump_risk_def split: option.splits prod.splits)

lemma risk_calculation_sum:
  assumes "risk_calculation e s amount now region known_location choice label = Inr (risk0, reasons0)"
  shows "\<exists>r8 rs8. add_behavioral_risk e (spending_history s) amount label now (or_unknown region) [] = Inr (r8, rs8)
     \<and> 0 \<le> r8
     \<and> risk0 = foldl float_add 0
          [fst (add_amount_zone_risk amount []), fst (add_location_risk region []),
           fst (add_unknown_location_risk known_location []), fst (add_time_of_day_risk now []),
           fst (add_merchant_risk choice []), fst (add_velocity_risk (last_tx_time s) now []),
           fst (add_location_jump_risk (last_region s) region []), r8]"
proof -
  from assms obtain rs7 r8 where
    b: "add_behavioral_risk e (spending_history s) amount label now (or_unknown region) rs7 = Inr (r8, reasons0)"
    and r: "risk0 = foldl float_add 0
          [fst (add_amount_zone_risk amount []), fst (add_location_risk region []),
           fst (add_unknown_location_risk known_location []), fst (add_time_of_day_risk now []),
           fst (add_merchant_risk choice []), fst (add_velocity_risk (last_tx_time s) now []),
           fst (add_location_jump_risk (last_region s) region []), r8]"
    by (auto simp: risk_calculation_def split_beta factor_values split: sum.splits)
  from behavioral_reasons_irrelevant [OF b] behavioral_nonneg [OF b] r show ?thesis by blast
qed

lemma factors_nonneg:
  "0 \<le> fst (add_amount_zone_risk amount rs)"
  "0 \<le> fst (add_location_risk region rs)"
  "0 \<le> fst (add_unknown_location_risk known_location rs)"
  "0 \<le> fst (add_time_of_day_risk now rs)"
  "0 \<le> fst (add_merchant_risk choice rs)"
  "0 \<le> fst (add_velocity_risk last_time now rs)"
  "0 \<le> fst (add_location_jump_risk last_reg region rs)"
  using merchant_get_nonneg [of choice]
  by (auto simp: add_amount_zone_risk_def add_location_risk_def
        add_unknown_location_risk_def add_time_of_day_risk_def add_merchant_risk_def
        add_velocity_risk_def add_location_jump_risk_def double_nonneg
        split: option.splits prod.splits)

lemma input_Inr:
  "input p w = Inr (l, w1) \<longleftrightarrow>
     (\<exists>rest. stdin w = l # rest \<and> w1 = w\<lparr>stdin := rest, stdout := stdout w @ [Prompt p]\<rparr>)"
  by (auto simp: input_def split: list.splits)

lemma input_Cons:
  "stdin w = l # rest \<Longrightarrow> input p w = Inr (l, w\<lparr>stdin := rest, stdout := stdout w @ [Prompt p]\<rparr>)"
  by (simp add: input_def)

text \<open>
  C2, amended. For a transaction that goes through the risk pipeline (the amount is 150
  or more and the location and merchant lines are read), the score is the float sum of
  the eight contributions, accumulated from 0.0 in the order of the source and cut off
  at 1; no contribution is negative, and the score lies in [0, 1].
\<close>

theorem composite_score:
  assumes run: "assess e s amount now w = Inr (a, w')"
    and lines: "stdin w = location # c # rest"
    and loc: "validate_location e location = (region, known_location, loc_reason)"
    and ch: "choice = (if map_of MERCHANT_RISK (py_strip c) = None then ''7'' else py_strip c)"
  shows "\<exists>r8 rs8.
     add_behavioral_risk e (spending_history s) amount (fst (merchant_get choice)) now
       (or_unknown region) [] = Inr (r8, rs8) \<and>
     (\<forall>x \<in> set [fst (add_amount_zone_risk amount []), fst (add_location_risk region []),
          fst (add_unknown_location_risk known_location []), fst (add_time_of_day_risk now []),
          fst (add_merchant_risk choice []), fst (add_velocity_risk (last_tx_time s) now []),
          fst (add_location_jump_risk (last_region s) region []), r8]. 0 \<le> x) \<and>
     a_risk a = min 1 (foldl float_add 0
         [fst (add_amount_zone_risk amount []), fst (add_location_risk region []),
          fst (add_unknown_location_risk known_location []), fst (add_time_of_day_risk now []),
          fst (add_merchant_risk choice []), fst (add_velocity_risk (last_tx_time s) now []),
          fst (add_location_jump_risk (last_region s) region []), r8]) \<and>
     0 \<le> a_risk a \<and> a_risk a \<le> 1"
proof -
  let ?xs = "\<lambda>r8. [fst (add_amount_zone_risk amount []), fst (add_location_risk region []),
          fst (add_unknown_location_risk known_location []), fst (add_time_of_day_risk now []),
          fst (add_merchant_risk choice []), fst (add_velocity_risk (last_tx_time s) now []),
          fst (add_location_jump_risk (last_region s) region []), r8]"
  from run lines loc ch obtain risk0 reasons0 where
    rc: "risk_calculation e s amount now region known_location choice (fst (merchant_get choice)) = Inr (risk0, reasons0)"
    and ar: "a_risk a = min risk0 1"
    by (auto simp: assess_def input_def print_def Let_def split: sum.splits prod.splits if_splits)
  from risk_calculation_sum [OF rc] obtain r8 rs8 where
    b: "add_behavioral_risk e (spending_history s) amount (fst (merchant_get choice)) now (or_unknown region) [] = Inr (r8, rs8)"
    and nn: "0 \<le> r8"
    and r: "risk0 = foldl float_add 0 (?xs r8)" by blast
  have all: "\<forall>x\<in>set (?xs r8). 0 \<le> x"
    using nn factors_nonneg(1) [of amount "[]"] factors_nonneg(2) [of region "[]"]
      factors_nonneg(3) [of known_location "[]"] factors_nonneg(4) [of now "[]"]
      factors_nonneg(5) [of choice "[]"] factors_nonneg(6) [of "last_tx_time s" now "[]"]
      factors_nonneg(7) [of "last_region s" region "[]"] by simp
  from float_sum_nonneg [OF _ all, of 0] have nn0: "0 \<le> risk0" unfolding r by simp
  have "a_risk a = min 1 (foldl float_add 0 (?xs r8))" using ar r by (simp add: min.commute)
  moreover have "0 \<le> a_risk a" "a_risk a \<le> 1" using ar nn0 by simp_all
  ultimately show ?thesis using b all by blast
qed

lemma validate_nowhere:
  "validate_location demo_env ''nowhere'' = (None, False, ''Invalid format. Use: City, Region.'')"
  by (simp add: validate_location_def py_strip_def py_lower_def lower_char_def py_isspace_def)

lemma initial_session_fields:
  "flagged_count initial_session = 0" "pin_fails initial_session = 0"
  "\<not> card_blocked initial_session" "session_log initial_session = []"
  "last_tx_time initial_session = None" "last_region initial_session = None"
  "spending_history initial_session = []"
  by (simp_all add: initial_session_def)

lemma behavioral_empty: "add_behavioral_risk e [] amount m now r rs = Inr (0, rs)"
  by (simp add: add_behavioral_risk_def analyze_spending_patterns_def)

lemmas assess_defs = assess_def input_def print_def
  validate_nowhere risk_calculation_def initial_session_fields behavioral_empty
  add_amount_zone_risk_def add_location_risk_def add_unknown_location_risk_def
  add_time_of_day_risk_def add_merchant_risk_def add_velocity_risk_def
  add_location_jump_risk_def merchant_get_def MERCHANT_RISK_def MERCHANT_RISK_7_def
  py_strip_def py_isspace_def hour_def decide_def or_unknown_def

text \<open>At 25000 by night, 0.50, 0.30, 0.10, 0.10 and 0.30 add up to 1.3 and are cut off.\<close>

lemma assess_clamped:
  "assess demo_env initial_session 25000 7200000000 clamped_world =
     Inr (clamped_assessment, clamped_world\<lparr>stdin := [],
            stdout := [Prompt Ask_location, Merchant_menu, Prompt Ask_merchant]\<rparr>)"
  by (simp add: assess_defs clamped_world_def clamped_assessment_def float_eval)

theorem composite_score_witness:
  "assess demo_env initial_session 25000 7200000000 clamped_world =
     Inr (clamped_assessment, clamped_world\<lparr>stdin := [],
            stdout := [Prompt Ask_location, Merchant_menu, Prompt Ask_merchant]\<rparr>) \<and>
   a_risk clamped_assessment =
     min 1 (foldl float_add 0 [double (50 / 100), double (30 / 100), double (10 / 100), double (10 / 100), double (30 / 100), 0, 0, 0]) \<and>
   0 \<le> a_risk clamped_assessment \<and> a_risk clamped_assessment \<le> 1"
proof -
  have lines: "stdin clamped_world = ''nowhere'' # ''6'' # []"
    by (simp add: clamped_world_def)
  have ch: "''6'' = (if map_of MERCHANT_RISK (py_strip ''6'') = None then ''7'' else py_strip ''6'')"
    by (simp add: MERCHANT_RISK_def py_strip_def py_isspace_def)
  from composite_score [OF assess_clamped lines validate_nowhere ch]
  obtain r8 rs8 where
    b: "add_behavioral_risk demo_env (spending_history initial_session) 25000
          (fst (merchant_get ''6'')) 7200000000 (or_unknown None) [] = Inr (r8, rs8)"
    and v: "a_risk clamped_assessment = min 1 (foldl float_add 0
         [fst (add_amount_zone_risk 25000 []), fst (add_location_risk None []),
          fst (add_unknown_location_risk False []), fst (add_time_of_day_risk 7200000000 []),
          fst (add_merchant_risk ''6'' []),
          fst (add_velocity_risk (last_tx_time initial_session) 7200000000 []),
          fst (add_location_jump_risk (last_region initial_session) None []), r8])"
    and range: "0 \<le> a_risk clamped_assessment" "a_risk clamped_assessment \<le> 1"
    by blast
  from b have r8: "r8 = 0" by (simp add: behavioral_empty initial_session_fields)
  have f: "fst (add_amount_zone_risk 25000 []) = double (50 / 100)"
    "fst (add_location_risk None []) = double (30 / 100)"
    "fst (add_unknown_location_risk False []) = double (10 / 100)"
    "fst (add_time_of_day_risk 7200000000 []) = double (10 / 100)"
    "fst (add_merchant_risk ''6'' []) = double (30 / 100)"
    "fst (add_velocity_risk (last_tx_time initial_session) 7200000000 []) = 0"
    "fst (add_location_jump_risk (last_region initial_session) None []) = 0"
    by (simp_all add: initial_session_fields
      add_amount_zone_risk_def add_location_risk_def add_unknown_location_risk_def
      add_time_of_day_risk_def add_merchant_risk_def add_velocity_risk_def
      add_location_jump_risk_def merchant_get_def MERCHANT_RISK_def MERCHANT_RISK_7_def
      hour_def)
  from v have "a_risk clamped_assessment =
     min 1 (foldl float_add 0 [double (50 / 100), double (30 / 100), double (10 / 100), double (10 / 100), double (30 / 100), 0, 0, 0])"
    unfolding r8 f .
  with assess_clamped range show ?thesis by blast
qed

text \<open>
  C2 as stated does not hold. At the amount 3000, an unresolvable location and merchant
  type 6, at noon, the contributions are 0.20, 0.30, 0.10 and 0.30. The score is
  0.8999999999999999: it is not the sum of these four floats, nor 0.9, and it is below
  the float 0.90 that the full tier of the verification asks for.
\<close>

theorem rounded_score_counterexample:
  "assess demo_env initial_session 3000 43200000000 clamped_world =
     Inr (rounded_assessment, clamped_world\<lparr>stdin := [],
            stdout := [Prompt Ask_location, Merchant_menu, Prompt Ask_merchant]\<rparr>) \<and>
   fst (add_amount_zone_risk 3000 []) = double (20 / 100) \<and>
   fst (add_location_risk None []) = double (30 / 100) \<and>
   fst (add_unknown_location_risk False []) = double (10 / 100) \<and>
   fst (add_time_of_day_risk 43200000000 []) = 0 \<and>
   fst (add_merchant_risk ''6'' []) = double (30 / 100) \<and>
   a_risk rounded_assessment \<noteq> min 1 (sum_list [double (20 / 100), double (30 / 100), double (10 / 100), 0, double (30 / 100), 0, 0, 0]) \<and>
   a_risk rounded_assessment \<noteq> 9 / 10 \<and>
   a_risk rounded_assessment < double (90 / 100)"
  by (simp add: assess_defs clamped_world_def rounded_assessment_def float_eval)

section \<open>The verification dialogue\<close>

lemma of_char_lower: "(of_char (lower_char c) :: nat) =
   (if 65 \<le> (of_char c :: nat) \<and> (of_char c :: nat) \<le> 90 then of_char c + 32 else of_char c)"
  by (simp add: lower_char_def Let_def)

lemma lower_char_space: "py_isspace (lower_char c) = py_isspace c"
  by (simp add: py_isspace_def of_char_lower)

lemma dropWhile_space_lower:
  "dropWhile py_isspace (map lower_char xs) = map lower_char (dropWhile py_isspace xs)"
  by (induction xs) (simp_all add: lower_char_space)

lemma py_strip_lower: "py_strip (py_lower l) = py_lower (py_strip l)"
  by (simp add: py_strip_def py_lower_def dropWhile_space_lower rev_map)

lemma full_verification_result:
  assumes lines: "stdin w = l1 # l2 # l3 # l4 # rest"
  shows "full_verification w =
     (let ok1 = (py_lower (py_strip l1) = py_lower SIM_LAST_NAME);
          ok2 = (py_strip l2 = SIM_DOB);
          ok3 = (py_strip l3 = SIM_CVV);
          ok4 = (py_strip l4 = CORRECT_PIN);
          k = (if \<not> ok1 then 1 else if \<not> ok2 then 2 else if \<not> ok3 then 3 else 4)
      in Inr (ok1 \<and> ok2 \<and> ok3 \<and> ok4,
              w\<lparr>stdin := drop k (stdin w),
                stdout := stdout w @ [Tier FULL] @
                  map Prompt (take k [Ask_last_name, Ask_dob, Ask_cvv, Ask_pin]) @
                  [if \<not> ok1 then Verification_failed Last_name_mismatch
                   else if \<not> ok2 then Verification_failed Birthdate_mismatch
                   else if \<not> ok3 then Verification_failed CVV_mismatch
                   else if \<not> ok4 then Verification_failed PIN_incorrect
                   else Verification_passed]\<rparr>))"
  using lines
  by (simp add: full_verification_def input_def print_def Let_def)

text \<open>
  C6. In the full tier (amount above 5000 or score at least 0.90) with four answers at
  hand, the questions are surname, date of birth, security code and PIN, in that order;
  the dialogue stops at the first answer that does not match, having asked and read
  nothing beyond it, and fails; it passes exactly when all four match. The surname is
  compared without regard to case.
\<close>

theorem full_verification_sequence:
  assumes full: "amount > 5000 \<or> risk \<ge> double (90 / 100)"
    and lines: "stdin w = l1 # l2 # l3 # l4 # rest"
  shows "run_verification amount risk w =
     (let ok1 = (py_lower (py_strip l1) = py_lower SIM_LAST_NAME);
          ok2 = (py_strip l2 = SIM_DOB);
          ok3 = (py_strip l3 = SIM_CVV);
          ok4 = (py_strip l4 = CORRECT_PIN);
          k = (if \<not> ok1 then 1 else if \<not> ok2 then 2 else if \<not> ok3 then 3 else 4)
      in Inr (ok1 \<and> ok2 \<and> ok3 \<and> ok4,
              w\<lparr>stdin := drop k (stdin w),
                stdout := stdout w @ [Verification_required, Tier FULL] @
                  map Prompt (take k [Ask_last_name, Ask_dob, Ask_cvv, Ask_pin]) @
                  [if \<not> ok1 then Verification_failed Last_name_mismatch
                   else if \<not> ok2 then Verification_failed Birthdate_mismatch
                   else if \<not> ok3 then Verification_failed CVV_mismatch
                   else if \<not> ok4 then Verification_failed PIN_incorrect
                   else Verification_passed]\<rparr>)) \<and>
     (py_lower l1 = py_lower l1' \<longrightarrow>
        (py_lower (py_strip l1) = py_lower SIM_LAST_NAME) =
        (py_lower (py_strip l1') = py_lower SIM_LAST_NAME))"
proof
  have "stdin (print Verification_required w) = l1 # l2 # l3 # l4 # rest"
    using lines by (simp add: print_def)
  from full_verification_result [OF this] full lines
  show "run_verification amount risk w =
     (let ok1 = (py_lower (py_strip l1) = py_lower SIM_LAST_NAME);
          ok2 = (py_strip l2 = SIM_DOB);
          ok3 = (py_strip l3 = SIM_CVV);
          ok4 = (py_strip l4 = CORRECT_PIN);
          k = (if \<not> ok1 then 1 else if \<not> ok2 then 2 else if \<not> ok3 then 3 else 4)
      in Inr (ok1 \<and> ok2 \<and> ok3 \<and> ok4,
              w\<lparr>stdin := drop k (stdin w),
                stdout := stdout w @ [Verification_required, Tier FULL] @
                  map Prompt (take k [Ask_last_name, Ask_dob, Ask_cvv, Ask_pin]) @
                  [if \<not> ok1 then Verification_failed Last_name_mismatch
                   else if \<not> ok2 then Verification_failed Birthdate_mismatch
                   else if \<not> ok3 then Verification_failed CVV_mismatch
                   else if \<not> ok4 then Verification_failed PIN_incorrect
                   else Verification_passed]\<rparr>))"
    by (simp add: run_verification_def print_def Let_def)
next
  show "py_lower l1 = py_lower l1' \<longrightarrow>
        (py_lower (py_strip l1) = py_lower SIM_LAST_NAME) =
        (py_lower (py_strip l1') = py_lower SIM_LAST_NAME)"
    by (simp add: py_strip_lower [symmetric])
qed


lemma full_verification_stdout:
  assumes "full_verification w = Inr (v, w')"
  shows "\<exists>evs. stdout w' = stdout w @ evs \<and> (\<forall>ev\<in>set evs. dialogue ev) \<and>
     tiers evs = [FULL] \<and>
     asked evs \<in> {[Ask_last_name], [Ask_last_name, Ask_dob], [Ask_last_name, Ask_dob, Ask_cvv],
        [Ask_last_name, Ask_dob, Ask_cvv, Ask_pin]} \<and>
     ticks w' = ticks w \<and> length (stdin w') < length (stdin w) \<and>
     (Verification_passed \<in> set evs) = v"
  using assms
  by (auto simp: full_verification_def input_def print_def split: list.splits if_splits)

lemma mid_verification_stdout:
  assumes "mid_verification w = Inr (v, w')"
  shows "\<exists>evs. stdout w' = stdout w @ evs \<and> (\<forall>ev\<in>set evs. dialogue ev) \<and>
     tiers evs = [PIN_PLUS_ONE] \<and>
     asked evs \<in> {[Ask_pin], [Ask_pin, Ask_option], [Ask_pin, Ask_option, Ask_last_name],
        [Ask_pin, Ask_option, Ask_dob], [Ask_pin, Ask_option, Ask_cvv]} \<and>
     ticks w' = ticks w \<and> length (stdin w') < length (stdin w) \<and>
     (Verification_passed \<in> set evs) = v"
  using assms
  by (auto simp: mid_verification_def input_def print_def Let_def split: list.splits if_splits)

lemma pin_verification_stdout:
  assumes "pin_verification w = Inr (v, w')"
  shows "\<exists>evs. stdout w' = stdout w @ evs \<and> (\<forall>ev\<in>set evs. dialogue ev) \<and>
     tiers evs = [PIN_ONLY] \<and> asked evs = [Ask_pin] \<and>
     ticks w' = ticks w \<and> length (stdin w') < length (stdin w) \<and>
     (Verification_passed \<in> set evs) = v"
  using assms
  by (auto simp: pin_verification_def input_def print_def split: list.splits if_splits)

lemma run_verification_stdout:
  assumes "run_verification amount risk w = Inr (v, w')"
  shows "\<exists>evs. stdout w' = stdout w @ Verification_required # evs \<and>
     (\<forall>ev\<in>set evs. dialogue ev) \<and> ticks w' = ticks w \<and>
     length (stdin w') \<le> length (stdin w) \<and>
     (amount > 1000 \<or> risk \<ge> double (50 / 100) \<longrightarrow> (Verification_passed \<in> set evs) = v) \<and>
     (if amount > 5000 \<or> risk \<ge> double (90 / 100) then
        tiers evs = [FULL] \<and>
        asked evs \<in> {[Ask_last_name], [Ask_last_name, Ask_dob],
          [Ask_last_name, Ask_dob, Ask_cvv], [Ask_last_name, Ask_dob, Ask_cvv, Ask_pin]}
      else if amount > 2000 \<or> risk \<ge> double (70 / 100) then
        tiers evs = [PIN_PLUS_ONE] \<and>
        asked evs \<in> {[Ask_pin], [Ask_pin, Ask_option], [Ask_pin, Ask_option, Ask_last_name],
          [Ask_pin, Ask_option, Ask_dob], [Ask_pin, Ask_option, Ask_cvv]}
      else if amount > 1000 \<or> risk \<ge> double (50 / 100) then
        tiers evs = [PIN_ONLY] \<and> asked evs = [Ask_pin]
      else evs = [] \<and> v)"
proof -
  let ?w = "print Verification_required w"
  have w: "stdout ?w = stdout w @ [Verification_required]" "ticks ?w = ticks w"
    "stdin ?w = stdin w" by (simp_all add: print_def)
  consider (full) "amount > 5000 \<or> risk \<ge> double (90 / 100)"
    | (mid) "\<not> (amount > 5000 \<or> risk \<ge> double (90 / 100))" "amount > 2000 \<or> risk \<ge> double (70 / 100)"
    | (pin) "\<not> (amount > 5000 \<or> risk \<ge> double (90 / 100))" "\<not> (amount > 2000 \<or> risk \<ge> double (70 / 100))"
        "amount > 1000 \<or> risk \<ge> double (50 / 100)"
    | (none) "\<not> (amount > 5000 \<or> risk \<ge> double (90 / 100))" "\<not> (amount > 2000 \<or> risk \<ge> double (70 / 100))"
        "\<not> (amount > 1000 \<or> risk \<ge> double (50 / 100))" by blast
  then show ?thesis
  proof cases
    case full
    with assms have "full_verification ?w = Inr (v, w')"
      by (simp add: run_verification_def Let_def)
    from full_verification_stdout [OF this] full show ?thesis by (auto simp: w)
  next
    case mid
    with assms have "mid_verification ?w = Inr (v, w')"
      by (simp add: run_verification_def Let_def)
    from mid_verification_stdout [OF this] mid show ?thesis by (auto simp: w)
  next
    case pin
    with assms have "pin_verification ?w = Inr (v, w')"
      by (simp add: run_verification_def Let_def)
    from pin_verification_stdout [OF this] pin show ?thesis by (auto simp: w)
  next
    case none
    with assms have "v" "w' = ?w"
      by (simp_all add: run_verification_def Let_def)
    with none show ?thesis by (simp add: w)
  qed
qed

section \<open>The outcome of a transaction\<close>

lemma ask_again_after_failure_result:
  assumes "ask_again_after_failure s now region w = Inr (c, s', w')"
  shows "stdout w' = stdout w @ [Prompt Ask_again]" "ticks w' = ticks w"
    "length (stdin w') < length (stdin w)"
    "s' = (if c = Continue
           then s\<lparr>last_tx_time := Some now, last_region := Some (or_unknown region)\<rparr> else s)"
  using assms
  by (auto simp: ask_again_after_failure_def input_def split: list.splits if_splits)

lemma verification_failed_result:
  assumes "verification_failed s now region risk reasons w = Inr (c, s', w')"
  shows "stdout w' = stdout w @
       Fraud_result risk ''DECLINED (Failed Verification)'' (reasons @ [Verification_failed_declined]) #
       (if pin_fails s + 1 = 3 then [Multiple_failed_attempts, Prompt Ask_again]
        else if pin_fails s + 1 = 5 then [Block_instructions CARD_FROZEN]
        else if pin_fails s + 1 \<ge> 7 then [Block_instructions CARD_PERMANENTLY_BLOCKED]
        else [Prompt Ask_again])"
    and "ticks w' = ticks w" and "length (stdin w') \<le> length (stdin w)"
    and "pin_fails s' = pin_fails s + 1" and "flagged_count s' = flagged_count s + 1"
    and "spending_history s' = spending_history s"
    and "session_log s' = session_log s @ [(py_round2 risk, ''DECLINED (Failed Verification)'')]"
    and "card_blocked s' = (card_blocked s \<or> pin_fails s + 1 = 5 \<or> pin_fails s + 1 \<ge> 7)"
    and "pin_fails s + 1 = 5 \<or> pin_fails s + 1 \<ge> 7 \<Longrightarrow> c = Break"
    and "c = Continue \<Longrightarrow> last_tx_time s' = Some now \<and> last_region s' = Some (or_unknown region)"
    and "c = Break \<Longrightarrow> last_tx_time s' = last_tx_time s \<and> last_region s' = last_region s"
    and "c = Continue \<Longrightarrow> length (stdin w') < length (stdin w)"
proof -
  let ?s2 = "s\<lparr>pin_fails := pin_fails s + 1, flagged_count := flagged_count s + 1,
      session_log := session_log s @ [(py_round2 risk, ''DECLINED (Failed Verification)'')]\<rparr>"
  let ?w1 = "print (Fraud_result risk ''DECLINED (Failed Verification)''
      (reasons @ [Verification_failed_declined])) w"
  consider (three) "pin_fails s + 1 = 3"
      "ask_again_after_failure ?s2 now region (print Multiple_failed_attempts ?w1) = Inr (c, s', w')"
    | (five) "pin_fails s + 1 = 5" "c = Break" "s' = ?s2\<lparr>card_blocked := True\<rparr>"
      "w' = print (Block_instructions CARD_FROZEN) ?w1"
    | (seven) "pin_fails s + 1 \<ge> 7" "c = Break" "s' = ?s2\<lparr>card_blocked := True\<rparr>"
      "w' = print (Block_instructions CARD_PERMANENTLY_BLOCKED) ?w1"
    | (other) "pin_fails s + 1 \<noteq> 3" "pin_fails s + 1 \<noteq> 5" "\<not> pin_fails s + 1 \<ge> 7"
      "ask_again_after_failure ?s2 now region ?w1 = Inr (c, s', w')"
    using assms
    by (auto simp: verification_failed_def Let_def print_block_instructions_def
        split: if_splits)
  then have "stdout w' = stdout w @
       Fraud_result risk ''DECLINED (Failed Verification)'' (reasons @ [Verification_failed_declined]) #
       (if pin_fails s + 1 = 3 then [Multiple_failed_attempts, Prompt Ask_again]
        else if pin_fails s + 1 = 5 then [Block_instructions CARD_FROZEN]
        else if pin_fails s + 1 \<ge> 7 then [Block_instructions CARD_PERMANENTLY_BLOCKED]
        else [Prompt Ask_again]) \<and>
    ticks w' = ticks w \<and> length (stdin w') \<le> length (stdin w) \<and>
    pin_fails s' = pin_fails s + 1 \<and> flagged_count s' = flagged_count s + 1 \<and>
    spending_history s' = spending_history s \<and>
    session_log s' = session_log s @ [(py_round2 risk, ''DECLINED (Failed Verification)'')] \<and>
    card_blocked s' = (card_blocked s \<or> pin_fails s + 1 = 5 \<or> pin_fails s + 1 \<ge> 7) \<and>
    (pin_fails s + 1 = 5 \<or> pin_fails s + 1 \<ge> 7 \<longrightarrow> c = Break) \<and>
    (c = Continue \<longrightarrow> last_tx_time s' = Some now \<and> last_region s' = Some (or_unknown region)) \<and>
    (c = Break \<longrightarrow> last_tx_time s' = last_tx_time s \<and> last_region s' = last_region s) \<and>
    (c = Continue \<longrightarrow> length (stdin w') < length (stdin w))"
  proof cases
    case three
    from ask_again_after_failure_result [OF three(2)] three(1) show ?thesis
      by (cases c) (simp_all add: print_def)
  next
    case five
    then show ?thesis by (simp add: print_def)
  next
    case seven
    then show ?thesis by (simp add: print_def)
  next
    case other
    from ask_again_after_failure_result [OF other(4)] other(1,2,3) show ?thesis
      by (cases c) (simp_all add: print_def)
  qed
  then show "stdout w' = stdout w @
       Fraud_result risk ''DECLINED (Failed Verification)'' (reasons @ [Verification_failed_declined]) #
       (if pin_fails s + 1 = 3 then [Multiple_failed_attempts, Prompt Ask_again]
        else if pin_fails s + 1 = 5 then [Block_instructions CARD_FROZEN]
        else if pin_fails s + 1 \<ge> 7 then [Block_instructions CARD_PERMANENTLY_BLOCKED]
        else [Prompt Ask_again])"
    and "ticks w' = ticks w" and "length (stdin w') \<le> length (stdin w)"
    and "pin_fails s' = pin_fails s + 1" and "flagged_count s' = flagged_count s + 1"
    and "spending_history s' = spending_history s"
    and "session_log s' = session_log s @ [(py_round2 risk, ''DECLINED (Failed Verification)'')]"
    and "card_blocked s' = (card_blocked s \<or> pin_fails s + 1 = 5 \<or> pin_fails s + 1 \<ge> 7)"
    and "pin_fails s + 1 = 5 \<or> pin_fails s + 1 \<ge> 7 \<Longrightarrow> c = Break"
    and "c = Continue \<Longrightarrow> last_tx_time s' = Some now \<and> last_region s' = Some (or_unknown region)"
    and "c = Break \<Longrightarrow> last_tx_time s' = last_tx_time s \<and> last_region s' = last_region s"
    and "c = Continue \<Longrightarrow> length (stdin w') < length (stdin w)"
    by blast+
qed

lemma final_decision_result:
  assumes "final_decision s amount now region label risk decision reasons w = Inr (c, s', w')"
  shows "stdout w' = stdout w @ Fraud_result risk decision reasons #
       (if flagged_count s' \<ge> 5 then [Block_instructions CARD_FROZEN] else [Prompt Ask_again])"
    and "ticks w' = ticks w" and "length (stdin w') \<le> length (stdin w)"
    and "pin_fails s' = pin_fails s"
    and "flagged_count s' = (if decision \<noteq> ''APPROVED'' then flagged_count s + 1 else flagged_count s)"
    and "spending_history s' = spending_history s @
           [\<lparr>tx_amount = amount, tx_merchant = label, tx_hour = hour now,
             tx_region = or_unknown region\<rparr>]"
    and "session_log s' = session_log s"
    and "card_blocked s' = (card_blocked s \<or> flagged_count s' \<ge> 5)"
    and "flagged_count s' \<ge> 5 \<Longrightarrow> c = Break"
    and "last_tx_time s' = Some now" and "last_region s' = Some (or_unknown region)"
    and "c = Continue \<Longrightarrow> length (stdin w') < length (stdin w)"
  using assms
  by (auto simp: final_decision_def Let_def print_block_instructions_def print_def input_def
      split: if_splits list.splits)

lemma auto_approve_result:
  assumes "auto_approve s amount now w = Inr (c, s', w')"
  shows "stdout w' = stdout w @
       [Fraud_result 0 ''APPROVED'' [Low_value_auto_approved], Prompt Ask_again]"
    and "ticks w' = ticks w" and "length (stdin w') < length (stdin w)"
    and "pin_fails s' = pin_fails s" and "flagged_count s' = flagged_count s"
    and "spending_history s' = spending_history s @
           [\<lparr>tx_amount = amount, tx_merchant = ''Low-Value Auto-Approved'', tx_hour = hour now,
             tx_region = ''ab''\<rparr>]"
    and "session_log s' = session_log s @ [(0, ''APPROVED (Low-value auto-approve)'')]"
    and "card_blocked s' = card_blocked s"
    and "last_tx_time s' = Some now" and "last_region s' = Some ''ab''"
  using assms
  by (auto simp: auto_approve_def Let_def print_def input_def split: if_splits list.splits)

lemma dialogue_quiet: "dialogue ev \<Longrightarrow> quiet ev"
  by (cases ev) simp_all

lemma decisions_append: "decisions (xs @ ys) = decisions xs @ decisions ys"
  by (induction xs rule: decisions.induct) simp_all

lemma quiet_decisions: "\<forall>ev\<in>set evs. quiet ev \<Longrightarrow> decisions evs = []"
  by (induction evs rule: decisions.induct) simp_all

lemma quiet_not_in:
  assumes "\<forall>ev\<in>set evs. quiet ev"
  shows "Multiple_failed_attempts \<notin> set evs" "Block_instructions b \<notin> set evs"
    "Fraud_result r d rs \<notin> set evs"
  using assms by auto

lemma new_events_append: "stdout w' = stdout w @ evs \<Longrightarrow> new_events w w' = evs"
  by (simp add: new_events_def)

lemma amount_loop_result:
  assumes "amount_loop e lines out = Inr (amount, rest, out')"
  shows "0 < amount \<and> length rest < length lines \<and>
     (\<exists>evs. out' = out @ evs \<and>
        set evs \<subseteq> {Prompt Ask_amount, Invalid_input, Amount_must_be_positive})"
  using assms
proof (induction e lines out rule: amount_loop.induct)
  case (1 e out)
  then show ?case by simp
next
  case (2 e amt_input rest' out)
  show ?case
  proof (cases "float_of e amt_input")
    case None
    with 2 show ?thesis by fastforce
  next
    case (Some v)
    show ?thesis
    proof (cases v)
      case Nan
      with Some 2 show ?thesis by fastforce
    next
      case (Float a)
      show ?thesis
      proof (cases "a > 0")
        case True
        with Some Float 2 show ?thesis by auto
      next
        case False
        with Some Float 2 show ?thesis by fastforce
      qed
    qed
  qed
qed

lemma read_amount_result:
  assumes "read_amount e w = Inr (amount, w1)"
  shows "0 < amount" "ticks w1 = ticks w" "length (stdin w1) < length (stdin w)"
    "\<exists>evs. stdout w1 = stdout w @ evs \<and>
        set evs \<subseteq> {Prompt Ask_amount, Invalid_input, Amount_must_be_positive}"
  using assms amount_loop_result [of e "stdin w" "stdout w" amount]
  by (auto simp: read_amount_def split: sum.splits prod.splits)

lemma assess_result:
  assumes "assess e s amount now w = Inr (a, w')"
  shows "stdout w' = stdout w @ [Prompt Ask_location, Merchant_menu, Prompt Ask_merchant]"
    and "ticks w' = ticks w" and "length (stdin w') < length (stdin w)"
    and "a_decision a = decide (a_risk a)"
    and "\<exists>location rest. stdin w = location # rest \<and> a_region a = fst (validate_location e location)"
  using assms
  by (auto simp: assess_def input_def print_def Let_def
      split: sum.splits prod.splits list.splits)

lemma verification_logic_cases [consumes 1, case_names declined passed unverified]:
  assumes "verification_logic s amount now a w = Inr (c, s', w')"
  obtains
    (declined) w1 evs where
      "amount > 1000 \<or> a_risk a \<ge> double (50 / 100)"
      "stdout w1 = stdout w @ Verification_triggered (a_risk a) amount # Verification_required # evs"
      "\<forall>ev\<in>set evs. dialogue ev" "Verification_passed \<notin> set evs"
      "ticks w1 = ticks w" "length (stdin w1) \<le> length (stdin w)"
      "verification_failed s now (a_region a) (a_risk a) (a_reasons a) w1 = Inr (c, s', w')"
  | (passed) w1 evs where
      "amount > 1000 \<or> a_risk a \<ge> double (50 / 100)"
      "stdout w1 = stdout w @ Verification_triggered (a_risk a) amount # Verification_required # evs"
      "\<forall>ev\<in>set evs. dialogue ev" "Verification_passed \<in> set evs"
      "ticks w1 = ticks w" "length (stdin w1) \<le> length (stdin w)"
      "final_decision (s\<lparr>pin_fails := 0\<rparr>) amount now (a_region a) (a_merchant_label a)
         (a_risk a) (a_decision a) (a_reasons a @ [Verification_passed_successfully]) w1 =
       Inr (c, s', w')"
  | (unverified)
      "\<not> (amount > 1000 \<or> a_risk a \<ge> double (50 / 100))"
      "final_decision s amount now (a_region a) (a_merchant_label a) (a_risk a) (a_decision a)
         (a_reasons a) w = Inr (c, s', w')"
proof (cases "amount > 1000 \<or> a_risk a \<ge> double (50 / 100)")
  case False
  with assms have "final_decision s amount now (a_region a) (a_merchant_label a) (a_risk a)
      (a_decision a) (a_reasons a) w = Inr (c, s', w')"
    by (simp add: verification_logic_def Let_def)
  with False show ?thesis by (rule unverified)
next
  case True
  let ?w0 = "print (Verification_triggered (a_risk a) amount) w"
  have w0: "stdout ?w0 = stdout w @ [Verification_triggered (a_risk a) amount]"
    "ticks ?w0 = ticks w" "stdin ?w0 = stdin w" by (simp_all add: print_def)
  from assms True obtain v w1 where
    rv: "run_verification amount (a_risk a) ?w0 = Inr (v, w1)"
    and out: "if \<not> v then verification_failed s now (a_region a) (a_risk a) (a_reasons a) w1 =
          Inr (c, s', w')
       else final_decision (s\<lparr>pin_fails := 0\<rparr>) amount now (a_region a) (a_merchant_label a)
         (a_risk a) (a_decision a) (a_reasons a @ [Verification_passed_successfully]) w1 =
          Inr (c, s', w')"
    by (auto simp: verification_logic_def Let_def split: sum.splits if_splits)
  from run_verification_stdout [OF rv] True obtain evs where
    evs: "stdout w1 = stdout ?w0 @ Verification_required # evs" "\<forall>ev\<in>set evs. dialogue ev"
      "ticks w1 = ticks ?w0" "length (stdin w1) \<le> length (stdin ?w0)"
      "(Verification_passed \<in> set evs) = v" by blast
  show ?thesis
  proof (cases v)
    case True
    with out evs w0 \<open>amount > 1000 \<or> a_risk a \<ge> double (50 / 100)\<close> show ?thesis
      by (intro passed [of w1 evs]) simp_all
  next
    case False
    with out evs w0 \<open>amount > 1000 \<or> a_risk a \<ge> double (50 / 100)\<close> show ?thesis
      by (intro declined [of w1 evs]) simp_all
  qed
qed


lemma dialogue_not_required: "\<forall>ev\<in>set evs. dialogue ev \<Longrightarrow> Verification_required \<notin> set evs"
  by auto

text \<open>
  C5. The verification heading is printed exactly when the amount is above 1000 or the
  score is at least 0.50. The tier is the first that matches from the strictest down:
  FULL (above 5000 or at least 0.90), then PIN plus one (above 2000 or at least 0.70),
  then PIN only (above 1000 or at least 0.50), else the check passes with nothing asked.
  In the PIN-only tier the PIN is the only question.
\<close>

theorem verification_trigger_and_tier:
  "(verification_logic s amount now a w = Inr (c, s', w0) \<longrightarrow>
      (Verification_required \<in> set (new_events w w0)) = (amount > 1000 \<or> a_risk a \<ge> double (50 / 100))) \<and>
   (run_verification amount risk w = Inr (verified, w') \<longrightarrow>
      (if amount > 5000 \<or> risk \<ge> double (90 / 100) then
         tiers (new_events w w') = [FULL] \<and>
         asked (new_events w w') \<in> {[Ask_last_name], [Ask_last_name, Ask_dob],
           [Ask_last_name, Ask_dob, Ask_cvv], [Ask_last_name, Ask_dob, Ask_cvv, Ask_pin]}
       else if amount > 2000 \<or> risk \<ge> double (70 / 100) then
         tiers (new_events w w') = [PIN_PLUS_ONE] \<and>
         asked (new_events w w') \<in> {[Ask_pin], [Ask_pin, Ask_option],
           [Ask_pin, Ask_option, Ask_last_name], [Ask_pin, Ask_option, Ask_dob],
           [Ask_pin, Ask_option, Ask_cvv]}
       else if amount > 1000 \<or> risk \<ge> double (50 / 100) then
         tiers (new_events w w') = [PIN_ONLY] \<and> asked (new_events w w') = [Ask_pin]
       else tiers (new_events w w') = [] \<and> asked (new_events w w') = [] \<and> verified))"
proof (intro conjI impI)
  assume run: "verification_logic s amount now a w = Inr (c, s', w0)"
  then show "(Verification_required \<in> set (new_events w w0)) =
      (amount > 1000 \<or> a_risk a \<ge> double (50 / 100))"
  proof (cases rule: verification_logic_cases)
    case (declined w1 evs)
    from verification_failed_result(1) [OF declined(7)] declined(1,2)
    show ?thesis by (simp add: new_events_def)
  next
    case (passed w1 evs)
    from final_decision_result(1) [OF passed(7)] passed(1,2)
    show ?thesis by (simp add: new_events_def)
  next
    case unverified
    from final_decision_result(1) [OF unverified(2)] unverified(1)
    show ?thesis by (auto simp: new_events_def)
  qed
next
  assume "run_verification amount risk w = Inr (verified, w')"
  from run_verification_stdout [OF this] obtain evs where
    evs: "stdout w' = stdout w @ Verification_required # evs"
    and tier: "if amount > 5000 \<or> risk \<ge> double (90 / 100) then
        tiers evs = [FULL] \<and>
        asked evs \<in> {[Ask_last_name], [Ask_last_name, Ask_dob],
          [Ask_last_name, Ask_dob, Ask_cvv], [Ask_last_name, Ask_dob, Ask_cvv, Ask_pin]}
      else if amount > 2000 \<or> risk \<ge> double (70 / 100) then
        tiers evs = [PIN_PLUS_ONE] \<and>
        asked evs \<in> {[Ask_pin], [Ask_pin, Ask_option], [Ask_pin, Ask_option, Ask_last_name],
          [Ask_pin, Ask_option, Ask_dob], [Ask_pin, Ask_option, Ask_cvv]}
      else if amount > 1000 \<or> risk \<ge> double (50 / 100) then
        tiers evs = [PIN_ONLY] \<and> asked evs = [Ask_pin]
      else evs = [] \<and> verified" by blast
  have ne: "tiers (new_events w w') = tiers evs" "asked (new_events w w') = asked evs"
    using evs by (simp_all add: new_events_def)
  show "if amount > 5000 \<or> risk \<ge> double (90 / 100) then
         tiers (new_events w w') = [FULL] \<and>
         asked (new_events w w') \<in> {[Ask_last_name], [Ask_last_name, Ask_dob],
           [Ask_last_name, Ask_dob, Ask_cvv], [Ask_last_name, Ask_dob, Ask_cvv, Ask_pin]}
       else if amount > 2000 \<or> risk \<ge> double (70 / 100) then
         tiers (new_events w w') = [PIN_PLUS_ONE] \<and>
         asked (new_events w w') \<in> {[Ask_pin], [Ask_pin, Ask_option],
           [Ask_pin, Ask_option, Ask_last_name], [Ask_pin, Ask_option, Ask_dob],
           [Ask_pin, Ask_option, Ask_cvv]}
       else if amount > 1000 \<or> risk \<ge> double (50 / 100) then
         tiers (new_events w w') = [PIN_ONLY] \<and> asked (new_events w w') = [Ask_pin]
       else tiers (new_events w w') = [] \<and> asked (new_events w w') = [] \<and> verified"
    unfolding ne using tier by (auto split: if_splits)
qed

section \<open>One pass of the loop\<close>

lemma amount_events_quiet:
  "set evs \<subseteq> {Prompt Ask_amount, Invalid_input, Amount_must_be_positive} \<Longrightarrow>
     (\<forall>ev\<in>set evs. quiet ev) \<and> Verification_passed \<notin> set evs"
  by auto

lemma transaction_cases [consumes 1, case_names blocked auto_approved declined processed]:
  assumes "transaction e s w = Inr (c, s', w')"
  obtains
    (blocked) "card_blocked s" "c = Break" "s' = s" "w' = w"
  | (auto_approved) amount w1 w2 pre where
      "\<not> card_blocked s"
      "read_amount e (print New_transaction w) = Inr (amount, w1)"
      "amount < 150"
      "stdout w2 = stdout w @ pre" "\<forall>ev\<in>set pre. quiet ev" "Verification_passed \<notin> set pre"
      "length (stdin w2) < length (stdin w)"
      "auto_approve s amount (clock e (ticks w)) w2 = Inr (c, s', w')"
  | (declined) amount w1 and a :: assessment and w2 pre where
      "\<not> card_blocked s"
      "read_amount e (print New_transaction w) = Inr (amount, w1)"
      "\<not> amount < 150"
      "\<exists>location rest. stdin w1 = location # rest \<and>
         a_region a = fst (validate_location e location)"
      "a_decision a = decide (a_risk a)"
      "amount > 1000 \<or> a_risk a \<ge> double (50 / 100)"
      "stdout w2 = stdout w @ pre" "\<forall>ev\<in>set pre. quiet ev" "Verification_passed \<notin> set pre"
      "length (stdin w2) < length (stdin w)"
      "verification_failed s (clock e (ticks w)) (a_region a) (a_risk a) (a_reasons a) w2 =
         Inr (c, s', w')"
  | (processed) amount w1 and a :: assessment and w2 pre reasons where
      "\<not> card_blocked s"
      "read_amount e (print New_transaction w) = Inr (amount, w1)"
      "\<not> amount < 150"
      "\<exists>location rest. stdin w1 = location # rest \<and>
         a_region a = fst (validate_location e location)"
      "a_decision a = decide (a_risk a)"
      "stdout w2 = stdout w @ pre" "\<forall>ev\<in>set pre. quiet ev"
      "(Verification_passed \<in> set pre) = (amount > 1000 \<or> a_risk a \<ge> double (50 / 100))"
      "length (stdin w2) < length (stdin w)"
      "final_decision
         (if amount > 1000 \<or> a_risk a \<ge> double (50 / 100) then s\<lparr>pin_fails := 0\<rparr> else s)
         amount (clock e (ticks w)) (a_region a) (a_merchant_label a) (a_risk a) (a_decision a)
         reasons w2 = Inr (c, s', w')"
proof (cases "card_blocked s")
  case True
  with assms show ?thesis by (intro blocked) (simp_all add: transaction_def)
next
  case nb: False
  let ?w0 = "print New_transaction w"
  have w0: "stdout ?w0 = stdout w @ [New_transaction]" "ticks ?w0 = ticks w"
    "stdin ?w0 = stdin w" by (simp_all add: print_def)
  from assms nb obtain amount w1 where
    ra: "read_amount e ?w0 = Inr (amount, w1)"
    and rest: "if amount < 150
       then auto_approve s amount (clock e (ticks w1)) (w1\<lparr>ticks := Suc (ticks w1)\<rparr>) =
              Inr (c, s', w')
       else scored_transaction e s amount (clock e (ticks w1)) (w1\<lparr>ticks := Suc (ticks w1)\<rparr>) =
              Inr (c, s', w')"
    by (auto simp: transaction_def datetime_now_def split: sum.splits if_splits)
  from read_amount_result [OF ra] w0 obtain evs0 where
    t1: "ticks w1 = ticks w" and l1: "length (stdin w1) < length (stdin w)"
    and o1: "stdout w1 = stdout w @ New_transaction # evs0"
    and q0: "set evs0 \<subseteq> {Prompt Ask_amount, Invalid_input, Amount_must_be_positive}"
    by auto
  let ?w2 = "w1\<lparr>ticks := Suc (ticks w1)\<rparr>"
  have w2: "stdout ?w2 = stdout w @ New_transaction # evs0" "stdin ?w2 = stdin w1"
    using o1 by simp_all
  note q = amount_events_quiet [OF q0]
  show ?thesis
  proof (cases "amount < 150")
    case True
    with rest have "auto_approve s amount (clock e (ticks w)) ?w2 = Inr (c, s', w')"
      by (simp add: t1)
    with nb ra True w2 q l1 show ?thesis
      by (intro auto_approved [of amount w1 ?w2 "New_transaction # evs0"]) simp_all
  next
    case False
    with rest have "scored_transaction e s amount (clock e (ticks w)) ?w2 = Inr (c, s', w')"
      by (simp add: t1)
    then obtain a w3 where
      as: "assess e s amount (clock e (ticks w)) ?w2 = Inr (a, w3)"
      and vl: "verification_logic s amount (clock e (ticks w)) a w3 = Inr (c, s', w')"
      by (auto simp: scored_transaction_def split: sum.splits)
    from assess_result [OF as] w2 have
      o3: "stdout w3 = stdout w @ New_transaction # evs0 @
             [Prompt Ask_location, Merchant_menu, Prompt Ask_merchant]"
      and l3: "length (stdin w3) < length (stdin w1)"
      and dec: "a_decision a = decide (a_risk a)"
      and loc: "\<exists>location rest. stdin w1 = location # rest \<and>
         a_region a = fst (validate_location e location)"
      by simp_all
    from vl show ?thesis
    proof (cases rule: verification_logic_cases)
      case (declined w4 evs)
      let ?pre = "New_transaction # evs0 @
             [Prompt Ask_location, Merchant_menu, Prompt Ask_merchant] @
             Verification_triggered (a_risk a) amount # Verification_required # evs"
      have "stdout w4 = stdout w @ ?pre" using declined(2) o3 by simp
      moreover have "\<forall>ev\<in>set ?pre. quiet ev" using q declined(3) dialogue_quiet by auto
      moreover have "Verification_passed \<notin> set ?pre" using q declined(4) by auto
      moreover have "length (stdin w4) < length (stdin w)" using declined(6) l3 l1 by simp
      ultimately show ?thesis
        using nb ra False loc dec declined(1,7)
        by (intro that(3) [of amount w1 a w4 ?pre]) simp_all
    next
      case (passed w4 evs)
      let ?pre = "New_transaction # evs0 @
             [Prompt Ask_location, Merchant_menu, Prompt Ask_merchant] @
             Verification_triggered (a_risk a) amount # Verification_required # evs"
      have "stdout w4 = stdout w @ ?pre" using passed(2) o3 by simp
      moreover have "\<forall>ev\<in>set ?pre. quiet ev" using q passed(3) dialogue_quiet by auto
      moreover have "(Verification_passed \<in> set ?pre) = (amount > 1000 \<or> a_risk a \<ge> double (50 / 100))"
        using passed(1,4) by simp
      moreover have "length (stdin w4) < length (stdin w)" using passed(6) l3 l1 by simp
      ultimately show ?thesis
        using nb ra False loc dec passed(1,7)
        by (intro that(4) [of amount w1 a w4 ?pre
              "a_reasons a @ [Verification_passed_successfully]"]) simp_all
    next
      case unverified
      let ?pre = "New_transaction # evs0 @
             [Prompt Ask_location, Merchant_menu, Prompt Ask_merchant]"
      have "stdout w3 = stdout w @ ?pre" using o3 by simp
      moreover have "\<forall>ev\<in>set ?pre. quiet ev" using q by auto
      moreover have "(Verification_passed \<in> set ?pre) = (amount > 1000 \<or> a_risk a \<ge> double (50 / 100))"
        using unverified(1) q by auto
      moreover have "length (stdin w3) < length (stdin w)" using l3 l1 by simp
      ultimately show ?thesis
        using nb ra False loc dec unverified
        by (intro that(4) [of amount w1 a w3 ?pre "a_reasons a"]) simp_all
    qed
  qed
qed

section \<open>The whole session\<close>

text \<open>
  A pass that goes on has read at least one line, so the loop ends on every finite input:
  by a \<^verbatim>\<open>break\<close> or by \<^verbatim>\<open>EOFError\<close>.
\<close>

lemma transaction_consumes:
  assumes "transaction e s w = Inr (Continue, s', w')"
  shows "length (stdin w') < length (stdin w)"
  using assms
proof (cases rule: transaction_cases)
  case blocked
  then show ?thesis by simp
next
  case (auto_approved amount w1 w2 pre)
  from auto_approve_result(3) [OF auto_approved(8)] auto_approved(7) show ?thesis by simp
next
  case (declined amount w1 a w2 pre)
  from verification_failed_result(3) [OF declined(11)] declined(10) show ?thesis by simp
next
  case (processed amount w1 a w2 pre reasons)
  from final_decision_result(3) [OF processed(10)] processed(9) show ?thesis by simp
qed

function main_loop :: "env \<Rightarrow> session \<Rightarrow> world \<Rightarrow> py_error + (session \<times> world)" where
  "main_loop e s w =
     (case transaction e s w of
        Inl err \<Rightarrow> Inl err
      | Inr (Break, s1, w1) \<Rightarrow> Inr (s1, w1)
      | Inr (Continue, s1, w1) \<Rightarrow> main_loop e s1 w1)"
  by pat_completeness auto
termination
proof (relation "measure (\<lambda>(e, s, w). length (stdin w))", goal_cases)
  case 1
  show ?case by simp
next
  case (2 e s w r c sw s1 w1)
  then have "transaction e s w = Inr (Continue, s1, w1)" by simp
  from transaction_consumes [OF this] show ?case by simp
qed

definition main :: "env \<Rightarrow> string list \<Rightarrow> py_error + (session \<times> world)" where
  "main e lines =
     (case main_loop e initial_session (initial_world lines) of
        Inl err \<Rightarrow> Inl err
      | Inr (s, w0) \<Rightarrow>
          let w1 = print (Session_summary (session_log s)) w0;
              w2 = print (Final_status (card_blocked s)) w1
          in case analyze_spending_patterns e (spending_history s) of
               Inl err \<Rightarrow> Inl err
             | Inr None \<Rightarrow> Inr (s, w2)
             | Inr (Some p) \<Rightarrow> Inr (s, print (Pattern_summary p) w2))"

lemma loop_n_Suc_front:
  "loop_n (Suc n) e s w =
     (case transaction e s w of
        Inl err \<Rightarrow> Inl err
      | Inr (Break, s1, w1) \<Rightarrow> Inr (Break, s1, w1)
      | Inr (Continue, s1, w1) \<Rightarrow> loop_n n e s1 w1)"
proof (induction n)
  case 0
  show ?case by (simp split: sum.splits prod.splits control.splits)
next
  case (Suc n)
  have "loop_n (Suc (Suc n)) e s w =
     (case loop_n (Suc n) e s w of
        Inl err \<Rightarrow> Inl err
      | Inr (Break, s1, w1) \<Rightarrow> Inr (Break, s1, w1)
      | Inr (Continue, s1, w1) \<Rightarrow> transaction e s1 w1)" by simp
  also have "\<dots> =
     (case transaction e s w of
        Inl err \<Rightarrow> Inl err
      | Inr (Break, s1, w1) \<Rightarrow> Inr (Break, s1, w1)
      | Inr (Continue, s1, w1) \<Rightarrow> loop_n (Suc n) e s1 w1)"
    unfolding Suc.IH by (simp split: sum.splits prod.splits control.splits)
  finally show ?case .
qed

text \<open>The loop ends exactly in the states where some pass leaves it.\<close>

lemma main_loop_loop_n:
  "main_loop e s w = Inr (s', w') \<longleftrightarrow> (\<exists>n. loop_n n e s w = Inr (Break, s', w'))"
proof (induction e s w rule: main_loop.induct)
  case (1 e s w)
  show ?case
  proof (cases "transaction e s w")
    case (Inl err)
    have "loop_n n e s w \<noteq> Inr (Break, s', w')" for n
      by (cases n) (simp_all add: loop_n_Suc_front Inl del: loop_n.simps(2))
    with Inl show ?thesis by (simp add: main_loop.simps [of e s w])
  next
    case (Inr r)
    obtain c s1 w1 where r: "r = (c, s1, w1)" by (cases r)
    show ?thesis
    proof (cases c)
      case Break
      have "loop_n n e s w = Inr (Break, s', w') \<longleftrightarrow> n \<noteq> 0 \<and> s1 = s' \<and> w1 = w'" for n
        by (cases n) (simp_all add: loop_n_Suc_front Inr r Break del: loop_n.simps(2))
      then have "(\<exists>n. loop_n n e s w = Inr (Break, s', w')) \<longleftrightarrow> s1 = s' \<and> w1 = w'"
        by (metis nat.distinct(1))
      with Inr r Break show ?thesis by (simp add: main_loop.simps [of e s w])
    next
      case Continue
      from Inr r Continue have ih: "main_loop e s1 w1 = Inr (s', w') \<longleftrightarrow>
          (\<exists>n. loop_n n e s1 w1 = Inr (Break, s', w'))"
        by (intro 1) simp_all
      have "loop_n n e s w = Inr (Break, s', w') \<longleftrightarrow>
          (\<exists>m. n = Suc m \<and> loop_n m e s1 w1 = Inr (Break, s', w'))" for n
        by (cases n) (simp_all add: loop_n_Suc_front Inr r Continue del: loop_n.simps(2))
      then have "(\<exists>n. loop_n n e s w = Inr (Break, s', w')) \<longleftrightarrow>
          (\<exists>m. loop_n m e s1 w1 = Inr (Break, s', w'))" by blast
      with Inr r Continue ih show ?thesis by (simp add: main_loop.simps [of e s w])
    qed
  qed
qed

section \<open>Escalation and history\<close>

lemma decide_not_declined: "decide risk \<noteq> ''DECLINED (Failed Verification)''"
  by (simp add: decide_def)

lemma loop_n_Break: "loop_n n e s0 w0 = Inr (Break, s, w) \<Longrightarrow> loop_n (n + k) e s0 w0 = Inr (Break, s, w)"
  by (induction k) simp_all

text \<open>The events of a declined transaction.\<close>

lemma transaction_declined [consumes 2, case_names declined]:
  assumes "transaction e s w = Inr (c, s', w')"
    and "decisions (new_events w w') = [''DECLINED (Failed Verification)'']"
  obtains amount w1 and a :: assessment and w2 pre where
      "\<not> card_blocked s"
      "read_amount e (print New_transaction w) = Inr (amount, w1)"
      "\<not> amount < 150"
      "\<exists>location rest. stdin w1 = location # rest \<and>
         a_region a = fst (validate_location e location)"
      "amount > 1000 \<or> a_risk a \<ge> double (50 / 100)"
      "stdout w2 = stdout w @ pre" "\<forall>ev\<in>set pre. quiet ev" "Verification_passed \<notin> set pre"
      "verification_failed s (clock e (ticks w)) (a_region a) (a_risk a) (a_reasons a) w2 =
         Inr (c, s', w')"
  using assms(1)
proof (cases rule: transaction_cases)
  case blocked
  with assms(2) show ?thesis by (simp add: new_events_def)
next
  case (auto_approved amount w1 w2 pre)
  from auto_approve_result(1) [OF auto_approved(8)] auto_approved(4,5) assms(2)
  show ?thesis by (simp add: new_events_def decisions_append quiet_decisions)
next
  case (declined amount w1 a w2 pre)
  then show ?thesis by (intro that [of amount w1 a w2 pre]) simp_all
next
  case (processed amount w1 a w2 pre reasons)
  from final_decision_result(1) [OF processed(10)] processed(5,6,7) assms(2)
  show ?thesis
    by (simp add: new_events_def decisions_append quiet_decisions decide_not_declined)
qed

lemma transaction_new_events_declined:
  assumes "stdout w2 = stdout w @ pre"
    and "verification_failed s now region risk reasons w2 = Inr (c, s', w')"
  shows "new_events w w' = pre @
       Fraud_result risk ''DECLINED (Failed Verification)'' (reasons @ [Verification_failed_declined]) #
       (if pin_fails s + 1 = 3 then [Multiple_failed_attempts, Prompt Ask_again]
        else if pin_fails s + 1 = 5 then [Block_instructions CARD_FROZEN]
        else if pin_fails s + 1 \<ge> 7 then [Block_instructions CARD_PERMANENTLY_BLOCKED]
        else [Prompt Ask_again])"
  using verification_failed_result(1) [OF assms(2)] assms(1) by (simp add: new_events_def)

text \<open>
  Every pass that prints a decision other than APPROVED adds one to \<open>flagged_count\<close>,
  and no other pass changes it.
\<close>

lemma flagged_count_step:
  assumes step: "transaction e s w = Inr (c, s', w')"
    and d: "decisions (new_events w w') = [d]"
  shows "flagged_count s' =
     (if d \<noteq> ''APPROVED'' then flagged_count s + 1 else flagged_count s)"
  using step
proof (cases rule: transaction_cases)
  case blocked
  with d show ?thesis by (simp add: new_events_def)
next
  case (auto_approved amount w1 w2 pre)
  from auto_approve_result(1,5) [OF auto_approved(8)] auto_approved(4,5) d
  show ?thesis by (simp add: new_events_def decisions_append quiet_decisions)
next
  case (declined amount w1 a w2 pre)
  from transaction_new_events_declined [OF declined(7,11)] declined(8) d
  have "d = ''DECLINED (Failed Verification)''"
    by (simp add: decisions_append quiet_decisions split: if_splits)
  with verification_failed_result(5) [OF declined(11)] show ?thesis by simp
next
  case (processed amount w1 a w2 pre reasons)
  from final_decision_result(1,5) [OF processed(10)] processed(6,7) d
  show ?thesis
    by (simp add: new_events_def decisions_append quiet_decisions split: if_splits)
qed

text \<open>
  C3. A declined transaction adds one to \<open>pin_fails\<close>. When the counter is then 3, the
  warning is printed, no block instructions are, and \<open>card_blocked\<close> is as before. When
  it is 5, the freeze instructions are printed, \<open>card_blocked\<close> is set and the loop is
  left: \<open>main_loop\<close> returns that state, as does every longer run of the loop.
\<close>

theorem failure_escalation:
  assumes loop: "loop_n n e s0 w0 = Inr (Continue, s, w)"
    and step: "transaction e s w = Inr (c, s', w')"
    and failed: "decisions (new_events w w') = [''DECLINED (Failed Verification)'']"
  shows "pin_fails s' = pin_fails s + 1 \<and>
    (pin_fails s' = 3 \<longrightarrow>
       Multiple_failed_attempts \<in> set (new_events w w') \<and>
       (\<forall>b. Block_instructions b \<notin> set (new_events w w')) \<and>
       card_blocked s' = card_blocked s) \<and>
    (pin_fails s' = 5 \<longrightarrow>
       Block_instructions CARD_FROZEN \<in> set (new_events w w') \<and>
       card_blocked s' \<and> c = Break \<and> main_loop e s w = Inr (s', w') \<and>
       (\<forall>k. loop_n (Suc n + k) e s0 w0 = Inr (Break, s', w')))"
  using step failed
proof (cases rule: transaction_declined)
  case (declined amount w1 a w2 pre)
  note vf = verification_failed_result [OF declined(9)]
  note ne = transaction_new_events_declined [OF declined(6,9)]
  have next_pass: "loop_n (Suc n) e s0 w0 = Inr (c, s', w')"
    using loop step by simp
  have "pin_fails s' = pin_fails s + 1" by (rule vf(4))
  moreover have "Multiple_failed_attempts \<in> set (new_events w w') \<and>
       (\<forall>b. Block_instructions b \<notin> set (new_events w w')) \<and>
       card_blocked s' = card_blocked s" if "pin_fails s' = 3"
    using that vf(4,8) declined(7) by (auto simp: ne)
  moreover have "Block_instructions CARD_FROZEN \<in> set (new_events w w') \<and>
       card_blocked s' \<and> c = Break \<and> main_loop e s w = Inr (s', w') \<and>
       (\<forall>k. loop_n (Suc n + k) e s0 w0 = Inr (Break, s', w'))" if five: "pin_fails s' = 5"
  proof -
    from five vf(4) have p: "pin_fails s + 1 = 5" by simp
    with vf(9) have c: "c = Break" by simp
    with next_pass have "loop_n (Suc n) e s0 w0 = Inr (Break, s', w')" by simp
    from loop_n_Break [OF this] have "\<forall>k. loop_n (Suc n + k) e s0 w0 = Inr (Break, s', w')"
      by simp
    moreover from step c have "main_loop e s w = Inr (s', w')"
      by (simp add: main_loop.simps [of e s w])
    ultimately show ?thesis using p c vf(8) by (simp add: ne)
  qed
  ultimately show ?thesis by blast
qed


lemma transaction_passed [consumes 2, case_names passed]:
  assumes "transaction e s w = Inr (c, s', w')"
    and "Verification_passed \<in> set (new_events w w')"
  obtains amount w1 and a :: assessment and w2 pre reasons where
      "read_amount e (print New_transaction w) = Inr (amount, w1)"
      "a_decision a = decide (a_risk a)"
      "stdout w2 = stdout w @ pre" "\<forall>ev\<in>set pre. quiet ev"
      "final_decision (s\<lparr>pin_fails := 0\<rparr>) amount (clock e (ticks w)) (a_region a)
         (a_merchant_label a) (a_risk a) (a_decision a) reasons w2 = Inr (c, s', w')"
  using assms(1)
proof (cases rule: transaction_cases)
  case blocked
  with assms(2) show ?thesis by (simp add: new_events_def)
next
  case (auto_approved amount w1 w2 pre)
  from auto_approve_result(1) [OF auto_approved(8)] auto_approved(4,6) assms(2)
  show ?thesis by (simp add: new_events_def)
next
  case (declined amount w1 a w2 pre)
  from transaction_new_events_declined [OF declined(7,11)] declined(9) assms(2)
  show ?thesis by (simp split: if_splits)
next
  case (processed amount w1 a w2 pre reasons)
  from final_decision_result(1) [OF processed(10)] processed(6) assms(2)
  have "Verification_passed \<in> set pre" by (simp add: new_events_def split: if_splits)
  with processed(8) have "amount > 1000 \<or> a_risk a \<ge> double (50 / 100)" by simp
  with processed show ?thesis by (intro that [of amount w1 a w2 pre reasons]) simp_all
qed

text \<open>
  C4, amended. A failed verification adds exactly one to \<open>pin_fails\<close> and one to
  \<open>flagged_count\<close>. A passed verification sets \<open>pin_fails\<close> to 0; \<open>flagged_count\<close> is
  then unchanged when the printed decision is APPROVED and one higher otherwise.
\<close>

theorem verification_counters:
  assumes step: "transaction e s w = Inr (c, s', w')"
  shows "(decisions (new_events w w') = [''DECLINED (Failed Verification)''] \<longrightarrow>
            pin_fails s' = pin_fails s + 1 \<and> flagged_count s' = flagged_count s + 1) \<and>
         (Verification_passed \<in> set (new_events w w') \<longrightarrow>
            pin_fails s' = 0 \<and>
            (\<exists>d. decisions (new_events w w') = [d] \<and>
                 flagged_count s' =
                   (if d \<noteq> ''APPROVED'' then flagged_count s + 1 else flagged_count s)))"
proof -
  have failed: "pin_fails s' = pin_fails s + 1 \<and> flagged_count s' = flagged_count s + 1"
    if "decisions (new_events w w') = [''DECLINED (Failed Verification)'']"
    using step that
  proof (cases rule: transaction_declined)
    case (declined amount w1 a w2 pre)
    from verification_failed_result(4,5) [OF declined(9)] show ?thesis by simp
  qed
  have passed: "pin_fails s' = 0 \<and>
            (\<exists>d. decisions (new_events w w') = [d] \<and>
                 flagged_count s' =
                   (if d \<noteq> ''APPROVED'' then flagged_count s + 1 else flagged_count s))"
    if "Verification_passed \<in> set (new_events w w')"
    using step that
  proof (cases rule: transaction_passed)
    case (passed amount w1 a w2 pre reasons)
    note fd = final_decision_result [OF passed(5)]
    have "decisions (new_events w w') = [a_decision a]"
      using fd(1) passed(3,4) by (simp add: new_events_def decisions_append quiet_decisions)
    with fd(4,5) show ?thesis by simp
  qed
  from failed passed show ?thesis by blast
qed

text \<open>The printed decision of a transaction that is not declined.\<close>

lemma transaction_completed [consumes 3, case_names auto_approved processed]:
  assumes "transaction e s w = Inr (c, s', w')"
    and "decisions (new_events w w') = [d]"
    and "d \<noteq> ''DECLINED (Failed Verification)''"
  obtains
    (auto_approved) amount w1 w2 where
      "read_amount e (print New_transaction w) = Inr (amount, w1)"
      "amount < 150"
      "auto_approve s amount (clock e (ticks w)) w2 = Inr (c, s', w')"
  | (processed) amount w1 and a :: assessment and w2 s1 reasons where
      "read_amount e (print New_transaction w) = Inr (amount, w1)"
      "\<not> amount < 150"
      "\<exists>location rest. stdin w1 = location # rest \<and>
         a_region a = fst (validate_location e location)"
      "final_decision s1 amount (clock e (ticks w)) (a_region a) (a_merchant_label a)
         (a_risk a) (a_decision a) reasons w2 = Inr (c, s', w')"
      "spending_history s1 = spending_history s"
  using assms(1)
proof (cases rule: transaction_cases)
  case blocked
  with assms(2) show ?thesis by (simp add: new_events_def)
next
  case (auto_approved amount w1 w2 pre)
  then show ?thesis by (intro that(1) [of amount w1 w2]) simp_all
next
  case (declined amount w1 a w2 pre)
  from transaction_new_events_declined [OF declined(7,11)] declined(8) assms(2,3)
  show ?thesis by (simp add: decisions_append quiet_decisions split: if_splits)
next
  case (processed amount w1 a w2 pre reasons)
  then show ?thesis
    by (intro that(2) [of amount w1 a
          "if amount > 1000 \<or> a_risk a \<ge> double (50 / 100) then s\<lparr>pin_fails := 0\<rparr> else s"
          reasons w2]) simp_all
qed

text \<open>
  C10, amended. A declined transaction appends nothing to \<open>spending_history\<close>; when the
  session goes on after it, \<open>last_tx_time\<close> and \<open>last_region\<close> are that transaction's
  time and region, and when the session ends with it they are left as they were.
  A transaction that is auto-approved or processed to its final decision appends
  exactly one entry, with its amount and hour.
\<close>

theorem history_and_last_transaction:
  assumes step: "transaction e s w = Inr (c, s', w')"
    and amt: "read_amount e (print New_transaction w) = Inr (amount, w1)"
  shows "(decisions (new_events w w') = [''DECLINED (Failed Verification)''] \<longrightarrow>
            spending_history s' = spending_history s \<and>
            (c = Continue \<longrightarrow>
               last_tx_time s' = Some (clock e (ticks w)) \<and>
               (\<exists>location rest. stdin w1 = location # rest \<and>
                  last_region s' = Some (or_unknown (fst (validate_location e location))))) \<and>
            (c = Break \<longrightarrow>
               last_tx_time s' = last_tx_time s \<and> last_region s' = last_region s)) \<and>
         (\<forall>d. decisions (new_events w w') = [d] \<and> d \<noteq> ''DECLINED (Failed Verification)'' \<longrightarrow>
            (\<exists>entry. spending_history s' = spending_history s @ [entry] \<and>
               tx_amount entry = amount \<and> tx_hour entry = hour (clock e (ticks w))) \<and>
            last_tx_time s' = Some (clock e (ticks w)))"
proof -
  have failed: "spending_history s' = spending_history s \<and>
            (c = Continue \<longrightarrow>
               last_tx_time s' = Some (clock e (ticks w)) \<and>
               (\<exists>location rest. stdin w1 = location # rest \<and>
                  last_region s' = Some (or_unknown (fst (validate_location e location))))) \<and>
            (c = Break \<longrightarrow>
               last_tx_time s' = last_tx_time s \<and> last_region s' = last_region s)"
    if "decisions (new_events w w') = [''DECLINED (Failed Verification)'']"
    using step that
  proof (cases rule: transaction_declined)
    case (declined amount' w1' a w2 pre)
    note vf = verification_failed_result [OF declined(9)]
    from declined(2) amt have "w1' = w1" by simp
    with declined(4) obtain location rest where
      loc: "stdin w1 = location # rest" "a_region a = fst (validate_location e location)"
      by blast
    from vf(6,10,11) loc show ?thesis by auto
  qed
  have completed: "(\<exists>entry. spending_history s' = spending_history s @ [entry] \<and>
               tx_amount entry = amount \<and> tx_hour entry = hour (clock e (ticks w))) \<and>
            last_tx_time s' = Some (clock e (ticks w))"
    if "decisions (new_events w w') = [d]" "d \<noteq> ''DECLINED (Failed Verification)''" for d
    using step that
  proof (cases rule: transaction_completed)
    case (auto_approved amount' w1' w2)
    from auto_approved(1) amt have "amount' = amount" by simp
    with auto_approve_result(6,9) [OF auto_approved(3)] show ?thesis by simp
  next
    case (processed amount' w1' a w2 s1 reasons)
    from processed(1) amt have "amount' = amount" by simp
    with final_decision_result(6,10) [OF processed(4)] processed(5) show ?thesis by simp
  qed
  from failed completed show ?thesis by blast
qed

lemma transaction_pin_fails:
  assumes step: "transaction e s w = Inr (c, s', w')"
    and le: "pin_fails s \<le> 4"
    and nb: "Block_instructions CARD_PERMANENTLY_BLOCKED \<notin> set (stdout w)"
  shows "pin_fails s' \<le> 5 \<and> (c = Continue \<longrightarrow> pin_fails s' \<le> 4) \<and>
     (pin_fails s' = 5 \<longrightarrow> card_blocked s') \<and>
     Block_instructions CARD_PERMANENTLY_BLOCKED \<notin> set (stdout w')"
  using step
proof (cases rule: transaction_cases)
  case blocked
  with le nb show ?thesis by simp
next
  case (auto_approved amount w1 w2 pre)
  from auto_approve_result(1,4) [OF auto_approved(8)] auto_approved(4,5) le nb
  show ?thesis by auto
next
  case (declined amount w1 a w2 pre)
  note vf = verification_failed_result [OF declined(11)]
  have "Block_instructions CARD_PERMANENTLY_BLOCKED \<notin> set (stdout w')"
    using vf(1) declined(7,8) le nb by auto
  moreover have "c = Continue \<longrightarrow> pin_fails s' \<le> 4"
  proof
    assume "c = Continue"
    with vf(9) have "pin_fails s + 1 \<noteq> 5" by auto
    with vf(4) le show "pin_fails s' \<le> 4" by linarith
  qed
  ultimately show ?thesis using vf(4,8) le by simp
next
  case (processed amount w1 a w2 pre reasons)
  from final_decision_result(1,4) [OF processed(10)] processed(6,7) le nb
  show ?thesis by (auto split: if_splits)
qed

text \<open>
  C9. Along every run from the initial state \<open>pin_fails\<close> is at most 5, hence never 7;
  it is at most 4 whenever the loop goes on, and at 5 the loop has been left with the
  card blocked. The instructions for a permanently blocked card are never printed.
\<close>

theorem blocked_unreachable:
  assumes "loop_n n e initial_session (initial_world lines) = Inr (c, s, w)"
  shows "pin_fails s \<le> 5 \<and> pin_fails s < 7 \<and> (c = Continue \<longrightarrow> pin_fails s \<le> 4) \<and>
     (pin_fails s = 5 \<longrightarrow> c = Break \<and> card_blocked s) \<and>
     Block_instructions CARD_PERMANENTLY_BLOCKED \<notin> set (stdout w)"
proof -
  have "pin_fails s \<le> 5 \<and> (c = Continue \<longrightarrow> pin_fails s \<le> 4) \<and>
     (pin_fails s = 5 \<longrightarrow> card_blocked s) \<and>
     Block_instructions CARD_PERMANENTLY_BLOCKED \<notin> set (stdout w)"
    using assms
  proof (induction n arbitrary: c s w)
    case 0
    then show ?case by (auto simp: initial_session_def initial_world_def)
  next
    case (Suc n)
    show ?case
    proof (cases "loop_n n e initial_session (initial_world lines)")
      case (Inl err)
      with Suc.prems show ?thesis by simp
    next
      case (Inr r)
      obtain c1 s1 w1 where r: "r = (c1, s1, w1)" by (cases r)
      show ?thesis
      proof (cases c1)
        case Break
        with Inr r Suc.prems have "loop_n n e initial_session (initial_world lines) = Inr (c, s, w)"
          by simp
        from Suc.IH [OF this] show ?thesis .
      next
        case Continue
        with Inr r have prev: "loop_n n e initial_session (initial_world lines) = Inr (Continue, s1, w1)"
          by simp
        with Suc.prems have step: "transaction e s1 w1 = Inr (c, s, w)" by simp
        from Suc.IH [OF prev] have "pin_fails s1 \<le> 4"
          "Block_instructions CARD_PERMANENTLY_BLOCKED \<notin> set (stdout w1)" by simp_all
        from transaction_pin_fails [OF step this] show ?thesis .
      qed
    qed
  qed
  then show ?thesis by (cases c) auto
qed

section \<open>Sample runs\<close>

text \<open>The passes of the sample sessions, each evaluated by the simplifier.\<close>

lemmas eval_defs = transaction_def read_amount_def datetime_now_def print_def input_def
  scored_transaction_def assess_def verification_logic_def run_verification_def
  full_verification_def mid_verification_def pin_verification_def
  verification_failed_def ask_again_after_failure_def final_decision_def auto_approve_def
  risk_calculation_def add_amount_zone_risk_def add_location_risk_def
  add_unknown_location_risk_def add_time_of_day_risk_def add_merchant_risk_def
  add_velocity_risk_def add_location_jump_risk_def add_behavioral_risk_def
  analyze_spending_patterns_def py_set_def py_max_def
  validate_location_def py_strip_def py_lower_def lower_char_def py_isspace_def
  or_unknown_def merchant_get_def MERCHANT_RISK_def MERCHANT_RISK_7_def ALBERTA_CITIES_def
  decide_def hour_def timedelta_seconds_def py_round2_def print_block_instructions_def
  CORRECT_PIN_def SIM_LAST_NAME_def SIM_DOB_def SIM_CVV_def
  demo_env_def float_digits_def Let_def char_of_def bit_0 float_eval

lemmas demo_defs = replicate_numeral drop_numeral_Cons flagged_entry_def flagged_reasons_def
  scored_events_def pass_events_def fail_events_def flagged_session_def flagged_world_def
  pass_lines_def fail_lines_def flagged_then_failed_def

lemma flagged_start:
  "flagged_session 0 = initial_session" "flagged_world 0 = initial_world flagged_then_failed"
  by (simp_all add: flagged_session_def flagged_world_def initial_session_def initial_world_def)

lemma flagged_step_0:
  "transaction demo_env (flagged_session 0) (flagged_world 0) =
     Inr (Continue, flagged_session 1, flagged_world 1)"
  by (simp add: eval_defs demo_defs)

lemma flagged_step_1:
  "transaction demo_env (flagged_session 1) (flagged_world 1) =
     Inr (Continue, flagged_session 2, flagged_world 2)"
  by (simp add: eval_defs demo_defs)

lemma flagged_step_2:
  "transaction demo_env (flagged_session 2) (flagged_world 2) =
     Inr (Continue, flagged_session 3, flagged_world 3)"
  by (simp add: eval_defs demo_defs)

lemma flagged_step_3:
  "transaction demo_env (flagged_session 3) (flagged_world 3) =
     Inr (Continue, flagged_session 4, flagged_world 4)"
  by (simp add: eval_defs demo_defs)

lemma flagged_step_4:
  "transaction demo_env (flagged_session 4) (flagged_world 4) =
     Inr (Continue, overflagged_session, overflagged_world)"
  by (simp add: eval_defs demo_defs overflagged_session_def overflagged_world_def)


lemma still_running_step:
  "transaction demo_env overflagged_session overflagged_world =
     Inr (Continue, still_running_session, still_running_world)"
  by (simp add: eval_defs demo_defs overflagged_session_def overflagged_world_def
      still_running_session_def still_running_world_def)

lemma failed_output_numeral:
  "failed_output (numeral k) = failed_output (pred_numeral k) @ fail_events @
     (if pred_numeral k = 2 then [Multiple_failed_attempts, Prompt Ask_again]
      else if pred_numeral k = 4 then [Block_instructions CARD_FROZEN]
      else [Prompt Ask_again])"
  by (simp add: numeral_eq_Suc)

lemmas failed_defs = replicate_numeral drop_numeral_Cons flagged_reasons_def
  scored_events_def fail_events_def failed_session_def failed_world_def failed_output_numeral
  fail_lines_def five_failures_def

lemma failed_start:
  "failed_session 0 = initial_session" "failed_world 0 = initial_world five_failures"
  by (simp_all add: failed_session_def failed_world_def initial_session_def initial_world_def)

lemma failed_step_0:
  "transaction demo_env (failed_session 0) (failed_world 0) =
     Inr (Continue, failed_session 1, failed_world 1)"
  by (simp add: eval_defs failed_defs)

lemma failed_step_1:
  "transaction demo_env (failed_session 1) (failed_world 1) =
     Inr (Continue, failed_session 2, failed_world 2)"
  by (simp add: eval_defs failed_defs)

lemma failed_step_2:
  "transaction demo_env (failed_session 2) (failed_world 2) =
     Inr (Continue, failed_session 3, failed_world 3)"
  by (simp add: eval_defs failed_defs)

lemma failed_step_3:
  "transaction demo_env (failed_session 3) (failed_world 3) =
     Inr (Continue, failed_session 4, failed_world 4)"
  by (simp add: eval_defs failed_defs)

lemma failed_step_4:
  "transaction demo_env (failed_session 4) (failed_world 4) =
     Inr (Break, failed_session 5, failed_world 5)"
  by (simp add: eval_defs failed_defs)

lemma quit_step:
  "transaction demo_env initial_session (initial_world quit_lines) =
     Inr (Break, quit_session, quit_world)"
  by (simp add: eval_defs flagged_reasons_def scored_events_def fail_events_def
      fail_lines_def quit_lines_def quit_session_def quit_world_def initial_session_def
      initial_world_def)

lemma loop_n_step:
  "loop_n n e s0 w0 = Inr (Continue, s, w) \<Longrightarrow> transaction e s w = r \<Longrightarrow> m = Suc n \<Longrightarrow>
     loop_n m e s0 w0 = r"
  by simp

lemma flagged_run:
  "loop_n 4 demo_env initial_session (initial_world flagged_then_failed) =
     Inr (Continue, flagged_session 4, flagged_world 4)"
proof -
  have r0: "loop_n 0 demo_env initial_session (initial_world flagged_then_failed) =
      Inr (Continue, flagged_session 0, flagged_world 0)"
    by (simp add: flagged_start)
  have r1: "loop_n 1 demo_env initial_session (initial_world flagged_then_failed) =
      Inr (Continue, flagged_session 1, flagged_world 1)"
    by (rule loop_n_step [OF r0 flagged_step_0]) simp
  have r2: "loop_n 2 demo_env initial_session (initial_world flagged_then_failed) =
      Inr (Continue, flagged_session 2, flagged_world 2)"
    by (rule loop_n_step [OF r1 flagged_step_1]) simp
  have r3: "loop_n 3 demo_env initial_session (initial_world flagged_then_failed) =
      Inr (Continue, flagged_session 3, flagged_world 3)"
    by (rule loop_n_step [OF r2 flagged_step_2]) simp
  show ?thesis
    by (rule loop_n_step [OF r3 flagged_step_3]) simp
qed

lemma overflagged_run:
  "loop_n 5 demo_env initial_session (initial_world flagged_then_failed) =
     Inr (Continue, overflagged_session, overflagged_world)"
  by (rule loop_n_step [OF flagged_run flagged_step_4]) simp

lemma still_running_run:
  "loop_n 6 demo_env initial_session (initial_world flagged_then_failed) =
     Inr (Continue, still_running_session, still_running_world)"
  by (rule loop_n_step [OF overflagged_run still_running_step]) simp

lemma failed_run_2:
  "loop_n 2 demo_env initial_session (initial_world five_failures) =
     Inr (Continue, failed_session 2, failed_world 2)"
proof -
  have r0: "loop_n 0 demo_env initial_session (initial_world five_failures) =
      Inr (Continue, failed_session 0, failed_world 0)"
    by (simp add: failed_start)
  have r1: "loop_n 1 demo_env initial_session (initial_world five_failures) =
      Inr (Continue, failed_session 1, failed_world 1)"
    by (rule loop_n_step [OF r0 failed_step_0]) simp
  show ?thesis
    by (rule loop_n_step [OF r1 failed_step_1]) simp
qed

lemma failed_run_4:
  "loop_n 4 demo_env initial_session (initial_world five_failures) =
     Inr (Continue, failed_session 4, failed_world 4)"
proof -
  have r3: "loop_n 3 demo_env initial_session (initial_world five_failures) =
      Inr (Continue, failed_session 3, failed_world 3)"
    by (rule loop_n_step [OF failed_run_2 failed_step_2]) simp
  show ?thesis
    by (rule loop_n_step [OF r3 failed_step_3]) simp
qed

lemma failed_run_5:
  "loop_n 5 demo_env initial_session (initial_world five_failures) =
     Inr (Break, failed_session 5, failed_world 5)"
  by (rule loop_n_step [OF failed_run_4 failed_step_4]) simp

lemma failed_new_events:
  "new_events (failed_world 0) (failed_world 1) = fail_events @ [Prompt Ask_again]"
  "new_events (failed_world 2) (failed_world 3) =
     fail_events @ [Multiple_failed_attempts, Prompt Ask_again]"
  "new_events (failed_world 4) (failed_world 5) = fail_events @ [Block_instructions CARD_FROZEN]"
  by (rule new_events_append, simp add: failed_world_def failed_output_numeral)+

lemma decisions_fail_events:
  "decisions (fail_events @ evs) = ''DECLINED (Failed Verification)'' # decisions evs"
  by (simp add: fail_events_def scored_events_def)

lemma flagged_new_events:
  "new_events (flagged_world 0) (flagged_world 1) = pass_events"
  by (simp add: new_events_def flagged_world_def replicate_numeral)

text \<open>
  C1 (the freeze as soon as \<open>flagged_count\<close> reaches 5), evaluated on a session where
  the code departs from it: four flagged transactions that pass verification, then one
  that fails it. The fifth pass of the loop raises \<open>flagged_count\<close> to 5 and goes on:
  the card is not blocked and no freeze instructions are printed. A sixth, auto-approved
  transaction is then accepted with \<open>flagged_count\<close> still 5.
\<close>

theorem flag_freeze_missed:
  "loop_n 5 demo_env initial_session (initial_world flagged_then_failed) =
     Inr (Continue, overflagged_session, overflagged_world) \<and>
   flagged_count overflagged_session = 5 \<and> \<not> card_blocked overflagged_session \<and>
   Block_instructions CARD_FROZEN \<notin> set (stdout overflagged_world) \<and>
   loop_n 6 demo_env initial_session (initial_world flagged_then_failed) =
     Inr (Continue, still_running_session, still_running_world) \<and>
   flagged_count still_running_session = 5 \<and> \<not> card_blocked still_running_session"
  by (simp add: overflagged_run still_running_run overflagged_session_def
      overflagged_world_def still_running_session_def flagged_session_def flagged_world_def
      replicate_numeral pass_events_def fail_events_def scored_events_def)

theorem failure_escalation_witness:
  "pin_fails (failed_session 3) = pin_fails (failed_session 2) + 1 \<and>
   Multiple_failed_attempts \<in> set (new_events (failed_world 2) (failed_world 3)) \<and>
   (\<forall>b. Block_instructions b \<notin> set (new_events (failed_world 2) (failed_world 3))) \<and>
   card_blocked (failed_session 3) = card_blocked (failed_session 2) \<and>
   pin_fails (failed_session 5) = pin_fails (failed_session 4) + 1 \<and>
   Block_instructions CARD_FROZEN \<in> set (new_events (failed_world 4) (failed_world 5)) \<and>
   card_blocked (failed_session 5) \<and>
   main_loop demo_env (failed_session 4) (failed_world 4) =
     Inr (failed_session 5, failed_world 5) \<and>
   loop_n 7 demo_env initial_session (initial_world five_failures) =
     Inr (Break, failed_session 5, failed_world 5)"
proof -
  have d2: "decisions (new_events (failed_world 2) (failed_world 3)) =
      [''DECLINED (Failed Verification)'']"
    by (simp only: failed_new_events decisions_fail_events) simp
  have d4: "decisions (new_events (failed_world 4) (failed_world 5)) =
      [''DECLINED (Failed Verification)'']"
    by (simp only: failed_new_events decisions_fail_events) simp
  have p: "pin_fails (failed_session 3) = 3" "pin_fails (failed_session 5) = 5"
    by (simp_all add: failed_session_def)
  from failure_escalation [OF failed_run_2 failed_step_2 d2]
    failure_escalation [OF failed_run_4 failed_step_4 d4] p
  have all: "pin_fails (failed_session 3) = pin_fails (failed_session 2) + 1 \<and>
   Multiple_failed_attempts \<in> set (new_events (failed_world 2) (failed_world 3)) \<and>
   (\<forall>b. Block_instructions b \<notin> set (new_events (failed_world 2) (failed_world 3))) \<and>
   card_blocked (failed_session 3) = card_blocked (failed_session 2) \<and>
   pin_fails (failed_session 5) = pin_fails (failed_session 4) + 1 \<and>
   Block_instructions CARD_FROZEN \<in> set (new_events (failed_world 4) (failed_world 5)) \<and>
   card_blocked (failed_session 5) \<and>
   main_loop demo_env (failed_session 4) (failed_world 4) =
     Inr (failed_session 5, failed_world 5) \<and>
   (\<forall>k. loop_n (Suc 4 + k) demo_env initial_session (initial_world five_failures) =
     Inr (Break, failed_session 5, failed_world 5))" by blast
  then have "loop_n (Suc 4 + 2) demo_env initial_session (initial_world five_failures) =
     Inr (Break, failed_session 5, failed_world 5)" by blast
  then have "loop_n 7 demo_env initial_session (initial_world five_failures) =
     Inr (Break, failed_session 5, failed_world 5)" by simp
  with all show ?thesis by blast
qed

theorem blocked_unreachable_witness:
  "loop_n 5 demo_env initial_session (initial_world five_failures) =
     Inr (Break, failed_session 5, failed_world 5) \<and>
   pin_fails (failed_session 5) = 5 \<and> card_blocked (failed_session 5) \<and>
   Block_instructions CARD_PERMANENTLY_BLOCKED \<notin> set (stdout (failed_world 5))"
  using blocked_unreachable [OF failed_run_5] failed_run_5
  by (simp add: failed_session_def)

theorem full_verification_sequence_witness:
  "run_verification 6000 (double (60 / 100)) mismatch_world =
     Inr (False, mismatch_world\<lparr>stdin := [''1234'', ''yes''],
       stdout := [Verification_required, Tier FULL, Prompt Ask_last_name, Prompt Ask_dob,
         Prompt Ask_cvv, Verification_failed CVV_mismatch]\<rparr>)"
proof -
  have lines: "stdin mismatch_world = ''WAHDAN '' # ''1990-05-14'' # ''999'' # ''1234'' # [''yes'']"
    by (simp add: mismatch_world_def)
  have full: "(6000 :: real) > 5000 \<or> (double (60 / 100) :: real) \<ge> double (90 / 100)" by simp
  from full_verification_sequence [OF full lines, of "''wahdan ''"]
  show ?thesis
    by (simp add: mismatch_world_def py_strip_def py_lower_def lower_char_def py_isspace_def
        SIM_LAST_NAME_def SIM_DOB_def SIM_CVV_def CORRECT_PIN_def Let_def char_of_def bit_0)
qed

lemma pin_only_run:
  "run_verification 1500 (double (10 / 100)) pin_world =
     Inr (True, pin_world\<lparr>stdin := [''yes''],
       stdout := [Verification_required, Tier PIN_ONLY, Prompt Ask_pin, Verification_passed]\<rparr>)"
  by (simp add: run_verification_def pin_verification_def input_def print_def pin_world_def
      py_strip_def py_isspace_def CORRECT_PIN_def Let_def float_eval)

lemma scenario_b_run:
  "verification_logic initial_session 1500 43200000000 scenario_b pin_world =
     Inr (Continue, scenario_b_session,
       pin_world\<lparr>stdin := [],
         stdout := [Verification_triggered (double (10 / 100)) 1500, Verification_required,
           Tier PIN_ONLY, Prompt Ask_pin, Verification_passed,
           Fraud_result (double (10 / 100)) ''APPROVED''
             (a_reasons scenario_b @ [Verification_passed_successfully]),
           Prompt Ask_again]\<rparr>)"
  by (simp add: verification_logic_def run_verification_def pin_verification_def
      final_decision_def input_def print_def pin_world_def scenario_b_def
      scenario_b_session_def initial_session_def hour_def or_unknown_def
      py_strip_def py_lower_def lower_char_def py_isspace_def CORRECT_PIN_def Let_def float_eval)

theorem verification_trigger_and_tier_witness:
  "verification_logic initial_session 1500 43200000000 scenario_b pin_world =
     Inr (Continue, scenario_b_session,
       pin_world\<lparr>stdin := [],
         stdout := [Verification_triggered (double (10 / 100)) 1500, Verification_required,
           Tier PIN_ONLY, Prompt Ask_pin, Verification_passed,
           Fraud_result (double (10 / 100)) ''APPROVED''
             (a_reasons scenario_b @ [Verification_passed_successfully]),
           Prompt Ask_again]\<rparr>) \<and>
   Verification_required \<in> set (new_events pin_world
       (pin_world\<lparr>stdin := [],
         stdout := [Verification_triggered (double (10 / 100)) 1500, Verification_required,
           Tier PIN_ONLY, Prompt Ask_pin, Verification_passed,
           Fraud_result (double (10 / 100)) ''APPROVED''
             (a_reasons scenario_b @ [Verification_passed_successfully]),
           Prompt Ask_again]\<rparr>)) \<and>
   tiers (new_events pin_world (pin_world\<lparr>stdin := [''yes''],
       stdout := [Verification_required, Tier PIN_ONLY, Prompt Ask_pin, Verification_passed]\<rparr>)) =
     [PIN_ONLY] \<and>
   asked (new_events pin_world (pin_world\<lparr>stdin := [''yes''],
       stdout := [Verification_required, Tier PIN_ONLY, Prompt Ask_pin, Verification_passed]\<rparr>)) =
     [Ask_pin]"
  using verification_trigger_and_tier [of initial_session 1500 43200000000 scenario_b
      pin_world Continue scenario_b_session _ "double (10 / 100)" True
      "pin_world\<lparr>stdin := [''yes''],
       stdout := [Verification_required, Tier PIN_ONLY, Prompt Ask_pin, Verification_passed]\<rparr>"]
    scenario_b_run pin_only_run
  by (simp add: scenario_b_def float_eval)

text \<open>
  C4 as stated does not hold: the first sample transaction passes verification, and
  \<open>flagged_count\<close> goes from 0 to 1, its decision being APPROVED (FLAGGED).
\<close>

theorem pass_leaves_flagged_count_counterexample:
  "transaction demo_env initial_session (initial_world flagged_then_failed) =
     Inr (Continue, flagged_session 1, flagged_world 1) \<and>
   Verification_passed \<in> set (new_events (initial_world flagged_then_failed) (flagged_world 1)) \<and>
   pin_fails (flagged_session 1) = 0 \<and>
   flagged_count (flagged_session 1) \<noteq> flagged_count initial_session"
  using flagged_step_0 flagged_new_events
  by (simp add: flagged_start flagged_session_def initial_session_def pass_events_def)

theorem verification_counters_witness:
  "pin_fails (failed_session 1) = pin_fails (failed_session 0) + 1 \<and>
   flagged_count (failed_session 1) = flagged_count (failed_session 0) + 1 \<and>
   pin_fails (flagged_session 1) = 0 \<and>
   decisions (new_events (flagged_world 0) (flagged_world 1)) = [''APPROVED (FLAGGED)''] \<and>
   flagged_count (flagged_session 1) = flagged_count (flagged_session 0) + 1"
proof -
  have d: "decisions (new_events (failed_world 0) (failed_world 1)) =
      [''DECLINED (Failed Verification)'']"
    by (simp only: failed_new_events decisions_fail_events) simp
  have p: "Verification_passed \<in> set (new_events (flagged_world 0) (flagged_world 1))"
    by (simp only: flagged_new_events) (simp add: pass_events_def)
  have dp: "decisions (new_events (flagged_world 0) (flagged_world 1)) = [''APPROVED (FLAGGED)'']"
    by (simp only: flagged_new_events) (simp add: pass_events_def scored_events_def)
  from verification_counters [OF failed_step_0] verification_counters [OF flagged_step_0] d p dp
  show ?thesis by simp
qed

text \<open>
  C10 as stated does not hold: a transaction fails verification and the user ends the
  session; \<open>last_tx_time\<close> and \<open>last_region\<close> are still unset.
\<close>

theorem last_transaction_counterexample:
  "transaction demo_env initial_session (initial_world quit_lines) =
     Inr (Break, quit_session, quit_world) \<and>
   decisions (new_events (initial_world quit_lines) quit_world) =
     [''DECLINED (Failed Verification)''] \<and>
   last_tx_time quit_session = None \<and> last_region quit_session = None \<and>
   last_tx_time quit_session \<noteq> Some (clock demo_env 0) \<and>
   last_region quit_session \<noteq> Some ''ab''"
  using quit_step
  by (simp add: quit_session_def quit_world_def initial_session_def
      initial_world_def new_events_def decisions_fail_events)

lemma failed_amount:
  "read_amount demo_env (print New_transaction (failed_world 0)) =
     Inr (6000, (failed_world 0)\<lparr>stdin := tl (stdin (failed_world 0)),
        stdout := [Banner, New_transaction, Prompt Ask_amount]\<rparr>)"
  by (simp add: read_amount_def print_def failed_defs demo_env_def float_digits_def float_eval)

lemma flagged_amount:
  "read_amount demo_env (print New_transaction (flagged_world 0)) =
     Inr (6000, (flagged_world 0)\<lparr>stdin := tl (stdin (flagged_world 0)),
        stdout := [Banner, New_transaction, Prompt Ask_amount]\<rparr>)"
  by (simp add: read_amount_def print_def demo_defs demo_env_def float_digits_def float_eval)

theorem history_and_last_transaction_witness:
  "spending_history (failed_session 1) = spending_history (failed_session 0) \<and>
   last_tx_time (failed_session 1) = Some (clock demo_env 0) \<and>
   last_region (failed_session 1) = Some ''ab'' \<and>
   (\<exists>entry. spending_history (flagged_session 1) = spending_history (flagged_session 0) @ [entry] \<and>
      tx_amount entry = 6000 \<and> tx_hour entry = hour (clock demo_env 0)) \<and>
   last_tx_time (flagged_session 1) = Some (clock demo_env 0)"
proof -
  have d: "decisions (new_events (failed_world 0) (failed_world 1)) =
      [''DECLINED (Failed Verification)'']"
    by (simp only: failed_new_events decisions_fail_events) simp
  have dp: "decisions (new_events (flagged_world 0) (flagged_world 1)) = [''APPROVED (FLAGGED)'']"
    by (simp only: flagged_new_events) (simp add: pass_events_def scored_events_def)
  have t: "ticks (failed_world 0) = 0" "ticks (flagged_world 0) = 0"
    by (simp_all add: failed_world_def flagged_world_def)
  have r: "last_region (failed_session 1) = Some ''ab''" by (simp add: failed_session_def)
  from history_and_last_transaction [OF failed_step_0 failed_amount]
    history_and_last_transaction [OF flagged_step_0 flagged_amount] d dp t r
  show ?thesis by simp
qed

end
